theory Spec2Isabelle
  imports Complex_Main
begin

section \<open>Strings of the host language\<close>

text \<open>
  A JavaScript string is a sequence of UTF-16 code units and \<open>.length\<close> counts them.
  The model uses HOL's \<open>string\<close>, one \<open>char\<close> per code unit, which covers the code
  units up to U+00FF: every string literal of \<open>index.tsx\<close> lies in that range (the
  Portuguese letters are written by their code, e.g. \<open>CHR 0xF3\<close> for o-acute).
\<close>

definition isWhiteSpace :: "char \<Rightarrow> bool" where
  \<comment> \<open>WhiteSpace and LineTerminator of ECMAScript, as far as they are below U+0100.\<close>
  "isWhiteSpace c =
     (c = CHR 0x09 \<or> c = CHR 0x0A \<or> c = CHR 0x0B \<or> c = CHR 0x0C \<or> c = CHR 0x0D
      \<or> c = CHR 0x20 \<or> c = CHR 0xA0)"

definition trim :: "string \<Rightarrow> string" where
  "trim s = rev (dropWhile isWhiteSpace (rev (dropWhile isWhiteSpace s)))"

definition lowerLetters :: string where
  \<comment> \<open>a to z, then U+00E0 to U+00FE without the division sign U+00F7.\<close>
  "lowerLetters =
     ''abcdefghijklmnopqrstuvwxyz''
     @ [CHR 0xE0, CHR 0xE1, CHR 0xE2, CHR 0xE3, CHR 0xE4, CHR 0xE5, CHR 0xE6, CHR 0xE7,
        CHR 0xE8, CHR 0xE9, CHR 0xEA, CHR 0xEB, CHR 0xEC, CHR 0xED, CHR 0xEE, CHR 0xEF,
        CHR 0xF0, CHR 0xF1, CHR 0xF2, CHR 0xF3, CHR 0xF4, CHR 0xF5, CHR 0xF6,
        CHR 0xF8, CHR 0xF9, CHR 0xFA, CHR 0xFB, CHR 0xFC, CHR 0xFD, CHR 0xFE]"

definition upperLetters :: string where
  \<comment> \<open>A to Z, then U+00C0 to U+00DE without the multiplication sign U+00D7.\<close>
  "upperLetters =
     ''ABCDEFGHIJKLMNOPQRSTUVWXYZ''
     @ [CHR 0xC0, CHR 0xC1, CHR 0xC2, CHR 0xC3, CHR 0xC4, CHR 0xC5, CHR 0xC6, CHR 0xC7,
        CHR 0xC8, CHR 0xC9, CHR 0xCA, CHR 0xCB, CHR 0xCC, CHR 0xCD, CHR 0xCE, CHR 0xCF,
        CHR 0xD0, CHR 0xD1, CHR 0xD2, CHR 0xD3, CHR 0xD4, CHR 0xD5, CHR 0xD6,
        CHR 0xD8, CHR 0xD9, CHR 0xDA, CHR 0xDB, CHR 0xDC, CHR 0xDD, CHR 0xDE]"

fun translate :: "string \<Rightarrow> string \<Rightarrow> char \<Rightarrow> char" where
  \<comment> \<open>The character at the same place of the second alphabet, if there is one.\<close>
  "translate (a # as) (b # bs) c = (if c = a then b else translate as bs c)"
| "translate [] bs c = c"
| "translate as [] c = c"

definition toUpperChar :: "char \<Rightarrow> char" where
  \<comment> \<open>U+00B5, U+00DF and U+00FF have upper-case forms outside this range and stay put.\<close>
  "toUpperChar c = translate lowerLetters upperLetters c"

definition toLowerChar :: "char \<Rightarrow> char" where
  "toLowerChar c = translate upperLetters lowerLetters c"

definition toUpperCase :: "string \<Rightarrow> string" where
  "toUpperCase s = map toUpperChar s"

definition toLowerCase :: "string \<Rightarrow> string" where
  "toLowerCase s = map toLowerChar s"

fun startsWith :: "string \<Rightarrow> string \<Rightarrow> bool" where
  "startsWith s [] = True"
| "startsWith [] (p # ps) = False"
| "startsWith (c # cs) (p # ps) = (c = p \<and> startsWith cs ps)"

fun includesStr :: "string \<Rightarrow> string \<Rightarrow> bool" where
  "includesStr [] sub = (sub = [])"
| "includesStr (c # cs) sub = (startsWith (c # cs) sub \<or> includesStr cs sub)"

fun join :: "string \<Rightarrow> string list \<Rightarrow> string" where
  "join sep [] = []"
| "join sep [x] = x"
| "join sep (x # y # ys) = x @ sep @ join sep (y # ys)"

definition digit :: "nat \<Rightarrow> char" where
  "digit d = ''0123456789'' ! d"

fun toString :: "nat \<Rightarrow> string" where
  "toString n = (if n < 10 then [digit n] else toString (n div 10) @ [digit (n mod 10)])"

declare toString.simps [simp del]

definition nl :: string where
  "nl = [CHR 0x0A]"

section \<open>Stage tracker\<close>

datatype TaskStatus = Pending | Active | Completed

datatype ResearchMode = ResearchOffline | ResearchWeb | ResearchDeep

datatype GenerationDepth = DepthFast | DepthBalanced | DepthDeep

datatype ModelName = Gemini25Pro | Gemini25Flash

datatype Icon = IconHistory | IconBot | IconSparkles | IconBlend | IconShieldCheck | IconSearch

record LoadingTask =
  name :: string
  status :: TaskStatus
  icon :: Icon

definition HISTORY_PROCESSING_TASK :: LoadingTask where
  "HISTORY_PROCESSING_TASK =
     \<lparr>name = ''Processando hist'' @ [CHR 0xF3] @ ''rico...'', status = Pending, icon = IconHistory\<rparr>"

definition BRAINSTORMING_TASK :: LoadingTask where
  "BRAINSTORMING_TASK = \<lparr>name = ''Brainstorming...'', status = Pending, icon = IconBot\<rparr>"

definition REFINING_TASK :: LoadingTask where
  "REFINING_TASK = \<lparr>name = ''Refinando rascunhos...'', status = Pending, icon = IconSparkles\<rparr>"

definition SYNTHESIZING_TASK :: LoadingTask where
  "SYNTHESIZING_TASK = \<lparr>name = ''Sintetizando resposta...'', status = Pending, icon = IconBlend\<rparr>"

definition CRITIC_TASK :: LoadingTask where
  "CRITIC_TASK =
     \<lparr>name = ''Revis'' @ [CHR 0xE3] @ ''o cr'' @ [CHR 0xED] @ ''tica...'', status = Pending,
      icon = IconShieldCheck\<rparr>"

definition SEARCHING_TASK :: LoadingTask where
  "SEARCHING_TASK = \<lparr>name = ''Pesquisando na web...'', status = Pending, icon = IconSearch\<rparr>"

definition FAST_TASK :: LoadingTask where
  \<comment> \<open>The literal of the fast branch of \<open>executeGeneration\<close>.\<close>
  "FAST_TASK = \<lparr>name = ''Gerando resposta...'', status = Pending, icon = IconBot\<rparr>"

definition OFFLINE_TASKS :: "LoadingTask list" where
  "OFFLINE_TASKS =
     [HISTORY_PROCESSING_TASK, BRAINSTORMING_TASK, REFINING_TASK, SYNTHESIZING_TASK, CRITIC_TASK]"

definition WEB_RESEARCH_TASKS :: "LoadingTask list" where
  "WEB_RESEARCH_TASKS =
     [HISTORY_PROCESSING_TASK, SEARCHING_TASK, BRAINSTORMING_TASK, REFINING_TASK,
      SYNTHESIZING_TASK, CRITIC_TASK]"

definition DEEP_RESEARCH_TASKS :: "LoadingTask list" where
  "DEEP_RESEARCH_TASKS =
     [HISTORY_PROCESSING_TASK, SEARCHING_TASK, BRAINSTORMING_TASK, REFINING_TASK,
      SYNTHESIZING_TASK, CRITIC_TASK]"

definition currentTaskTemplate :: "ResearchMode \<Rightarrow> LoadingTask list" where
  "currentTaskTemplate researchMode =
     (case researchMode of
        ResearchWeb \<Rightarrow> WEB_RESEARCH_TASKS
      | ResearchDeep \<Rightarrow> DEEP_RESEARCH_TASKS
      | ResearchOffline \<Rightarrow> OFFLINE_TASKS)"

definition buildLoadingTasks :: "ResearchMode \<Rightarrow> GenerationDepth \<Rightarrow> bool \<Rightarrow> LoadingTask list" where
  \<comment> \<open>The value handed to \<open>setLoadingTasks\<close> at the start of \<open>executeGeneration\<close>.\<close>
  "buildLoadingTasks researchMode generationDepth isSelfCorrectionEnabled =
     (if generationDepth = DepthFast then [FAST_TASK]
      else
        let tasksForRun = currentTaskTemplate researchMode;
            tasksForRun' = (if \<not> isSelfCorrectionEnabled
                            then filter (\<lambda>t. name t \<noteq> name CRITIC_TASK) tasksForRun
                            else tasksForRun)
        in map (\<lambda>task. task\<lparr>status := Pending\<rparr>) tasksForRun')"

fun mapIndexed :: "(nat \<Rightarrow> 'a \<Rightarrow> 'b) \<Rightarrow> nat \<Rightarrow> 'a list \<Rightarrow> 'b list" where
  \<comment> \<open>\<open>Array.prototype.map\<close> with its index argument, counting from the second argument.\<close>
  "mapIndexed f i [] = []"
| "mapIndexed f i (x # xs) = f i x # mapIndexed f (Suc i) xs"

definition updateTaskStatus :: "nat \<Rightarrow> TaskStatus \<Rightarrow> LoadingTask list \<Rightarrow> LoadingTask list" where
  "updateTaskStatus index st prev =
     mapIndexed (\<lambda>i task.
        if i < index then task\<lparr>status := Completed\<rparr>
        else if i = index then task\<lparr>status := st\<rparr>
        else task\<lparr>status := Pending\<rparr>) 0 prev"

text \<open>
  Numbers of the progress bar. Dividing by zero does not raise in JavaScript: it yields
  \<open>NaN\<close> or an infinity, which the model keeps as values of their own. Finite quotients
  are kept exact (the rounding of a double is left out).
\<close>

datatype JsNumber = Num rat | PosInfinity | NegInfinity | NaN

definition jsDivide :: "int \<Rightarrow> int \<Rightarrow> JsNumber" where
  "jsDivide a b =
     (if b = 0 then (if a = 0 then NaN else if 0 < a then PosInfinity else NegInfinity)
      else Num (of_int a / of_int b))"

definition jsTimes :: "JsNumber \<Rightarrow> rat \<Rightarrow> JsNumber" where
  \<comment> \<open>Multiplication by a positive finite constant.\<close>
  "jsTimes x k = (case x of Num r \<Rightarrow> Num (r * k) | other \<Rightarrow> other)"

definition completedCount :: "LoadingTask list \<Rightarrow> nat" where
  "completedCount tasks = length (filter (\<lambda>t. status t = Completed) tasks)"

definition progressPercentage :: "LoadingTask list \<Rightarrow> JsNumber" where
  \<comment> \<open>\<open>LoadingIndicator\<close>: the height of the progress bar, in percent.\<close>
  "progressPercentage tasks =
     (if length tasks > 0
      then jsTimes (jsDivide (int (completedCount tasks)) (int (length tasks) - 1)) 100
      else Num 0)"

section \<open>Data model\<close>

datatype Part = Text string | InlineData string string

datatype Role = User | Model

record Content =
  role :: Role
  parts :: "Part list"

record Source =
  uri :: string
  sourceTitle :: string

record ToolOutput =
  code :: string
  result :: "Part list"

record GenerationDetails =
  initial :: "string list"
  refined :: "string list"

text \<open>A \<open>Message\<close> has the two fields of a \<open>Content\<close> and the optional ones below.\<close>

record Message = Content +
  sources :: "Source list option"
  messageFiles :: "string list option"
  isError :: "bool option"
  generationDetails :: "GenerationDetails option"
  toolOutputs :: "ToolOutput list option"

record Conversation =
  convId :: string
  title :: string
  messages :: "Message list"

record AttachedFile =
  fileName :: string
  content :: Part

record SearchConfirmationData =
  originalUserInput :: string
  searchQuery :: string
  questions :: "string list"
  attachedFileParts :: "Part list"
  history :: "Content list"

section \<open>Model gateway\<close>

datatype SystemInstruction =
    INITIAL_SYSTEM_INSTRUCTION
  | REFINEMENT_SYSTEM_INSTRUCTION
  | SYNTHESIZER_SYSTEM_INSTRUCTION
  | SUMMARIZER_SYSTEM_INSTRUCTION
  | SEARCH_REFINER_SYSTEM_INSTRUCTION
  | CRITIC_SYSTEM_INSTRUCTION
  | PROACTIVE_ASSISTANT_SYSTEM_INSTRUCTION

datatype Tool = GoogleSearch | CodeExecution

datatype Contents = Plain string | Turns "Content list"

datatype Schema = SearchQuerySchema | StringArraySchema

record Request =
  model :: ModelName
  contents :: Contents
  systemInstruction :: "SystemInstruction option"
  temperature :: "rat option"
  tools :: "Tool list option"
  responseSchema :: "Schema option"

record ToolCodeOutput =
  toolCode :: "string option"
  toolResult :: "Part list option"

datatype ResponsePart = ResponseText string | ToolCodeOutputs "ToolCodeOutput list"

record Response =
  responseText :: string
  candidateParts :: "ResponsePart list option"
  groundingChunks :: "Source option list option"

datatype JsError = Error string | Thrown string

text \<open>
  What the program does not own: the remote model and \<open>JSON.parse\<close>. The result of a
  call may depend on the request and on how many calls were issued before it, so two
  calls with the same request may answer differently, and any of them may reject.
  \<open>parseSearchQuery\<close> stands for \<open>JSON.parse\<close> followed by the reading of the fields
  \<open>searchQuery\<close> and \<open>questions\<close>; \<open>parseSuggestions\<close> for \<open>JSON.parse\<close> followed by
  \<open>Array.isArray\<close> (\<open>None\<close> when the value is no array).
\<close>

record World =
  gateway :: "nat \<Rightarrow> Request \<Rightarrow> JsError + Response"
  parseSearchQuery :: "string \<Rightarrow> JsError + (string \<times> string list)"
  parseSuggestions :: "string \<Rightarrow> JsError + string list option"

section \<open>Application state\<close>

text \<open>
  The state of the \<open>App\<close> component that the orchestration reads or writes. The last
  field is not in the source: it records every request handed to the gateway, in the
  order of issue, with its outcome.
\<close>

record AppState =
  ai :: bool
  conversations :: "Conversation list"
  currentConversationId :: "string option"
  input :: string
  attachedFiles :: "AttachedFile list"
  isLoading :: bool
  loadingTasks :: "LoadingTask list"
  timer :: nat
  notification :: "(string \<times> string) option"
  initialTemps :: "rat list"
  refinementTemp :: rat
  synthesizerTemp :: rat
  researchMode :: ResearchMode
  modelName :: ModelName
  generationDepth :: GenerationDepth
  isSelfCorrectionEnabled :: bool
  isRefinePanelOpen :: bool
  isLongTermMemoryEnabled :: bool
  longTermMemories :: "string list"
  proactiveSuggestions :: "string list"
  isCodeInterpreterEnabled :: bool
  showSearchConfirmation :: bool
  searchConfirmationData :: "SearchConfirmationData option"
  calls :: "(Request \<times> (JsError + Response)) list"

type_synonym 'a Proc = "AppState \<Rightarrow> (JsError + 'a) \<times> AppState"

definition ret :: "'a \<Rightarrow> 'a Proc" where
  "ret x s = (Inr x, s)"

definition bnd :: "'a Proc \<Rightarrow> ('a \<Rightarrow> 'b Proc) \<Rightarrow> 'b Proc" where
  \<comment> \<open>\<open>await\<close> inside a \<open>try\<close>: a rejection skips the rest, the state written so far stays.\<close>
  "bnd m f s = (case m s of (Inl e, s1) \<Rightarrow> (Inl e, s1) | (Inr x, s1) \<Rightarrow> f x s1)"

definition generateContent :: "World \<Rightarrow> Request \<Rightarrow> Response Proc" where
  "generateContent w req s =
     (let res = gateway w (length (calls s)) req
      in (res, s\<lparr>calls := calls s @ [(req, res)]\<rparr>))"

fun promiseAll :: "(JsError + 'a) list \<Rightarrow> JsError + 'a list" where
  \<comment> \<open>Of several rejections the one of the lowest index is reported.\<close>
  "promiseAll [] = Inr []"
| "promiseAll (Inl e # rs) = Inl e"
| "promiseAll (Inr x # rs) = (case promiseAll rs of Inl e \<Rightarrow> Inl e | Inr xs \<Rightarrow> Inr (x # xs))"

fun generateContents :: "World \<Rightarrow> Request list \<Rightarrow> AppState \<Rightarrow> (JsError + Response) list \<times> AppState" where
  \<comment> \<open>\<open>array.map(x => ai.models.generateContent(...))\<close>: every request is issued.\<close>
  "generateContents w [] s = ([], s)"
| "generateContents w (req # reqs) s =
     (case generateContent w req s of (res, s1) \<Rightarrow>
        (case generateContents w reqs s1 of (rest, s2) \<Rightarrow> (res # rest, s2)))"

definition generateAll :: "World \<Rightarrow> Request list \<Rightarrow> Response list Proc" where
  "generateAll w reqs s =
     (case generateContents w reqs s of (results, s1) \<Rightarrow> (promiseAll results, s1))"

definition updateConversationMessages ::
  "string \<Rightarrow> (Message list \<Rightarrow> Message list) \<Rightarrow> AppState \<Rightarrow> AppState" where
  "updateConversationMessages conversationId getNewMessages s =
     s\<lparr>conversations :=
          map (\<lambda>c. if convId c = conversationId
                   then c\<lparr>messages := getNewMessages (messages c)\<rparr> else c)
              (conversations s)\<rparr>"

definition setTaskStatus :: "nat \<Rightarrow> TaskStatus \<Rightarrow> AppState \<Rightarrow> AppState" where
  \<comment> \<open>\<open>updateTaskStatus\<close> of the source, as a state update through \<open>setLoadingTasks\<close>.\<close>
  "setTaskStatus index st s = s\<lparr>loadingTasks := updateTaskStatus index st (loadingTasks s)\<rparr>"

definition runTask :: "'a Proc \<Rightarrow> nat \<Rightarrow> 'a Proc" where
  \<comment> \<open>The minimum display time of 400 ms is a delay only and is left out.\<close>
  "runTask taskFn taskIndex s =
     (case taskFn (setTaskStatus taskIndex Active s) of
        (Inl e, s1) \<Rightarrow> (Inl e, s1)
      | (Inr x, s1) \<Rightarrow> (Inr x, setTaskStatus taskIndex Completed s1))"

section \<open>Long-term memory\<close>

definition MAX_MEMORIES :: nat where
  "MAX_MEMORIES = 20"

definition storeMemory :: "string \<Rightarrow> string list \<Rightarrow> string list" where
  \<comment> \<open>The updater that \<open>generateAndStoreMemory\<close> hands to \<open>setLongTermMemories\<close>.\<close>
  "storeMemory newMemory prev =
     (let updatedMemories = newMemory # filter (\<lambda>m. m \<noteq> newMemory) prev
      in take MAX_MEMORIES updatedMemories)"

definition admitMemory :: "string \<Rightarrow> string list \<Rightarrow> string list" where
  \<comment> \<open>What \<open>generateAndStoreMemory\<close> does with the text of the summariser's response.\<close>
  "admitMemory txt prev =
     (let newMemory = trim txt
      in if newMemory \<noteq> [] \<and> length newMemory > 10 then storeMemory newMemory prev else prev)"

definition generateAndStoreMemory :: "World \<Rightarrow> string \<Rightarrow> string \<Rightarrow> AppState \<Rightarrow> AppState" where
  "generateAndStoreMemory w userInput modelResponse s =
     (if \<not> ai s then s
      else
        let memoryPrompt = ''User Query: '' @ [CHR 0x22] @ userInput @ [CHR 0x22] @ nl @ nl
                             @ ''AI Response: '' @ [CHR 0x22] @ modelResponse @ [CHR 0x22]
        in case generateContent w
                  \<lparr>model = Gemini25Flash, contents = Plain memoryPrompt,
                   systemInstruction = Some SUMMARIZER_SYSTEM_INSTRUCTION,
                   temperature = Some (1 / 5), tools = None, responseSchema = None\<rparr> s of
             (Inl error, s1) \<Rightarrow> s1
           | (Inr response, s1) \<Rightarrow>
               s1\<lparr>longTermMemories := admitMemory (responseText response) (longTermMemories s1)\<rparr>)"

definition onAdd :: "string \<Rightarrow> string list \<Rightarrow> string list" where
  \<comment> \<open>The updater of the memory modal: \<open>prev => [memory, ...prev]\<close>.\<close>
  "onAdd memory prev = memory # prev"

definition handleAdd :: "string \<Rightarrow> AppState \<Rightarrow> AppState" where
  \<comment> \<open>\<open>MemoryManagementModal\<close>: the user submits the text of the form.\<close>
  "handleAdd newMemory s =
     (if trim newMemory \<noteq> [] then s\<lparr>longTermMemories := onAdd (trim newMemory) (longTermMemories s)\<rparr>
      else s)"

definition generateProactiveSuggestions :: "World \<Rightarrow> string \<Rightarrow> string \<Rightarrow> AppState \<Rightarrow> AppState" where
  "generateProactiveSuggestions w userInput modelResponse s =
     (if \<not> ai s then s
      else
        let prompt = ''--- User Query ---'' @ nl @ userInput @ nl @ nl
                       @ ''--- AI Response ---'' @ nl @ modelResponse
        in case generateContent w
                  \<lparr>model = Gemini25Flash, contents = Plain prompt,
                   systemInstruction = Some PROACTIVE_ASSISTANT_SYSTEM_INSTRUCTION,
                   temperature = None, tools = None, responseSchema = Some StringArraySchema\<rparr> s of
             (Inl error, s1) \<Rightarrow> s1
           | (Inr response, s1) \<Rightarrow>
               (case parseSuggestions w (responseText response) of
                  Inl error \<Rightarrow> s1
                | Inr None \<Rightarrow> s1
                | Inr (Some suggestions) \<Rightarrow>
                    if length suggestions > 0
                    then s1\<lparr>proactiveSuggestions := take 3 suggestions\<rparr> else s1))"

section \<open>Conversation history\<close>

definition MAX_HISTORY_MESSAGES :: nat where
  "MAX_HISTORY_MESSAGES = 10"

definition sliceLast :: "nat \<Rightarrow> 'a list \<Rightarrow> 'a list" where
  \<comment> \<open>\<open>xs.slice(-n)\<close> for a positive \<open>n\<close>.\<close>
  "sliceLast n xs = drop (length xs - n) xs"

definition isHistoryPart :: "Part \<Rightarrow> bool" where
  \<comment> \<open>\<open>'text' in p && typeof p.text === 'string' && p.text.trim() !== ''\<close>\<close>
  "isHistoryPart p = (case p of Text t \<Rightarrow> trim t \<noteq> [] | InlineData mimeType bytes \<Rightarrow> False)"

definition buildHistory :: "Message list \<Rightarrow> Content list" where
  "buildHistory msgs =
     (let conversationHistory = sliceLast MAX_HISTORY_MESSAGES msgs
      in filter (\<lambda>msg. length (parts msg) > 0)
           (map (\<lambda>msg. \<lparr>role = role msg, parts = filter isHistoryPart (parts msg)\<rparr>)
                conversationHistory))"

section \<open>Generation orchestrator\<close>

definition FRIENDLY_GENERIC :: string where
  "FRIENDLY_GENERIC = ''Desculpe, algo deu errado ao gerar a resposta.''"

definition FRIENDLY_API_KEY :: string where
  "FRIENDLY_API_KEY =
     ''H'' @ [CHR 0xE1] @ '' um problema com a configura'' @ [CHR 0xE7, CHR 0xE3]
       @ ''o da API. Por favor, contate o administrador.''"

definition FRIENDLY_DEADLINE :: string where
  "FRIENDLY_DEADLINE =
     ''A solicita'' @ [CHR 0xE7, CHR 0xE3]
       @ ''o demorou muito e expirou. Tente novamente com uma pergunta mais curta ou verifique sua conex''
       @ [CHR 0xE3] @ ''o de rede.''"

definition FRIENDLY_SAFETY :: string where
  "FRIENDLY_SAFETY =
     ''A resposta foi bloqueada devido '' @ [CHR 0xE0] @ ''s configura'' @ [CHR 0xE7, CHR 0xF5]
       @ ''es de seguran'' @ [CHR 0xE7]
       @ ''a. Por favor, modifique sua pergunta e tente novamente.''"

definition friendlyMessage :: "JsError \<Rightarrow> string" where
  \<comment> \<open>The classification in the \<open>catch\<close> block of \<open>executeGeneration\<close>.\<close>
  "friendlyMessage error =
     (case error of
        Error message \<Rightarrow>
          if includesStr message ''API key not valid'' then FRIENDLY_API_KEY
          else if includesStr (toLowerCase message) ''deadline'' then FRIENDLY_DEADLINE
          else if includesStr message ''SAFETY'' then FRIENDLY_SAFETY
          else FRIENDLY_GENERIC
      | Thrown v \<Rightarrow> FRIENDLY_GENERIC)"

definition errorMessage :: "string \<Rightarrow> Message" where
  "errorMessage friendly =
     \<lparr>role = Model, parts = [Text friendly], sources = None, messageFiles = None,
      isError = Some True, generationDetails = None, toolOutputs = None\<rparr>"

definition parseToolOutputs :: "Response \<Rightarrow> ToolOutput list" where
  "parseToolOutputs response =
     (let toolCalls = (case candidateParts response of
                         None \<Rightarrow> []
                       | Some ps \<Rightarrow> filter (\<lambda>p. case p of ToolCodeOutputs outs \<Rightarrow> True
                                                 | ResponseText t \<Rightarrow> False) ps)
      in concat (map (\<lambda>call. case call of
                        ToolCodeOutputs outs \<Rightarrow>
                          map (\<lambda>toolOutput.
                                 \<lparr>code = (case toolCode toolOutput of
                                            None \<Rightarrow> ''C'' @ [CHR 0xF3] @ ''digo n'' @ [CHR 0xE3] @ ''o encontrado''
                                          | Some c \<Rightarrow> if c = [] then ''C'' @ [CHR 0xF3] @ ''digo n'' @ [CHR 0xE3] @ ''o encontrado''
                                                      else c),
                                  result = (case toolResult toolOutput of None \<Rightarrow> [] | Some r \<Rightarrow> r)\<rparr>)
                              outs
                      | ResponseText t \<Rightarrow> []) toolCalls))"

definition groundingSources :: "Response \<Rightarrow> Source list \<Rightarrow> Source list" where
  \<comment> \<open>The assignment to \<open>sources\<close>, guarded by the presence of \<open>groundingChunks\<close>.\<close>
  "groundingSources response sources0 =
     (case groundingChunks response of
        None \<Rightarrow> sources0
      | Some chunks \<Rightarrow> concat (map (\<lambda>chunk. case chunk of None \<Rightarrow> [] | Some web \<Rightarrow> [web]) chunks))"

definition nthOpt :: "'a list \<Rightarrow> nat \<Rightarrow> 'a option" where
  \<comment> \<open>\<open>xs[i]\<close>, which is \<open>undefined\<close> out of range.\<close>
  "nthOpt xs i = (if i < length xs then Some (xs ! i) else None)"

definition contextPrefix :: "AppState \<Rightarrow> string" where
  "contextPrefix env =
     (if isLongTermMemoryEnabled env \<and> length (longTermMemories env) > 0
      then ''--- Contexto da Mem'' @ [CHR 0xF3] @ ''ria de Longo Prazo ---'' @ nl @ ''- ''
             @ join (nl @ ''- '') (longTermMemories env) @ nl
             @ ''--- Fim do Contexto ---'' @ nl @ nl
      else [])"

definition codeInterpreterTool :: "AppState \<Rightarrow> Tool list" where
  "codeInterpreterTool env = (if isCodeInterpreterEnabled env then [CodeExecution] else [])"

definition numAgents :: "GenerationDepth \<Rightarrow> nat" where
  "numAgents depth = (if depth = DepthDeep then 4 else 2)"

definition promptWithContext :: "string \<Rightarrow> string \<Rightarrow> Part list \<Rightarrow> Content" where
  "promptWithContext finalInputWithContext webContext fileParts =
     \<lparr>role = User, parts = Text (finalInputWithContext @ webContext) # fileParts\<rparr>"

definition fastRequest :: "AppState \<Rightarrow> string \<Rightarrow> Part list \<Rightarrow> Content list \<Rightarrow> Request" where
  "fastRequest env finalInputWithContext fileParts hist =
     (let prompt = promptWithContext finalInputWithContext [] fileParts;
          fastModeTools = codeInterpreterTool env
            @ (if researchMode env = ResearchWeb \<or> researchMode env = ResearchDeep
               then [GoogleSearch] else [])
      in \<lparr>model = modelName env, contents = Turns (hist @ [prompt]),
          systemInstruction = None, temperature = Some (synthesizerTemp env),
          tools = (if length fastModeTools > 0 then Some fastModeTools else None),
          responseSchema = None\<rparr>)"

definition fastMessage :: "Response \<Rightarrow> Message" where
  "fastMessage finalResponse =
     \<lparr>role = Model, parts = [Text (responseText finalResponse)],
      sources = Some (groundingSources finalResponse []), messageFiles = None,
      isError = None, generationDetails = None,
      toolOutputs = Some (parseToolOutputs finalResponse)\<rparr>"

definition fastGeneration ::
  "World \<Rightarrow> AppState \<Rightarrow> string \<Rightarrow> string \<Rightarrow> Part list \<Rightarrow> Content list \<Rightarrow> string Proc" where
  \<comment> \<open>The \<open>fast\<close> branch of the \<open>try\<close> block; it yields \<open>finalResponseText\<close>.\<close>
  "fastGeneration w env cid finalInputWithContext fileParts hist s =
     bnd (generateContent w (fastRequest env finalInputWithContext fileParts hist))
       (\<lambda>finalResponse s2.
          (Inr (responseText finalResponse),
           updateConversationMessages cid (\<lambda>current. current @ [fastMessage finalResponse])
             (setTaskStatus 0 Completed s2)))
       (setTaskStatus 0 Active s)"

definition searchRequest :: "AppState \<Rightarrow> string \<Rightarrow> string option \<Rightarrow> Request" where
  "searchRequest env finalInputWithContext confirmedSearchQuery =
     (let queryForSearch = (case confirmedSearchQuery of
                              None \<Rightarrow> finalInputWithContext
                            | Some q \<Rightarrow> if q = [] then finalInputWithContext else q)
      in \<lparr>model = modelName env, contents = Plain queryForSearch, systemInstruction = None,
          temperature = None, tools = Some [GoogleSearch], responseSchema = None\<rparr>)"

definition webContextOf :: "Response \<Rightarrow> string" where
  \<comment> \<open>The value assigned to \<open>webContext\<close> after the search call.\<close>
  "webContextOf searchResponse =
     nl @ nl @ ''--- Web Search Results ---'' @ nl @ responseText searchResponse
       @ nl @ ''--- End Web Search Results ---''"

definition searchStage ::
  "World \<Rightarrow> AppState \<Rightarrow> string \<Rightarrow> string option \<Rightarrow> (string \<times> Source list \<times> nat) Proc" where
  \<comment> \<open>Yields \<open>webContext\<close>, \<open>sources\<close> and the task index of the stage that follows.\<close>
  "searchStage w env finalInputWithContext confirmedSearchQuery =
     (if researchMode env = ResearchWeb \<or> researchMode env = ResearchDeep
      then bnd (runTask (generateContent w
                  (searchRequest env finalInputWithContext confirmedSearchQuery)) 1)
             (\<lambda>searchResponse.
                ret (webContextOf searchResponse, groundingSources searchResponse [], 2))
      else ret ([], [], 1))"

definition initialRequests :: "AppState \<Rightarrow> Content list \<Rightarrow> Content \<Rightarrow> Request list" where
  "initialRequests env hist prompt =
     map (\<lambda>i. \<lparr>model = modelName env, contents = Turns (hist @ [prompt]),
               systemInstruction = Some INITIAL_SYSTEM_INSTRUCTION,
               temperature = nthOpt (initialTemps env) i, tools = None, responseSchema = None\<rparr>)
         [0..<numAgents (generationDepth env)]"

definition refinementRequests ::
  "AppState \<Rightarrow> Content list \<Rightarrow> Content \<Rightarrow> Response list \<Rightarrow> Request list" where
  "refinementRequests env hist prompt initialResponses =
     map (\<lambda>response.
            \<lparr>model = modelName env,
             contents = Turns (hist @
               [\<lparr>role = User,
                 parts = parts prompt @
                   [Text (nl @ nl @ ''--- Initial Response to Refine ---'' @ nl
                          @ responseText response)]\<rparr>]),
             systemInstruction = Some REFINEMENT_SYSTEM_INSTRUCTION,
             temperature = Some (refinementTemp env), tools = None, responseSchema = None\<rparr>)
         initialResponses"

definition synthesizerContent :: "Content \<Rightarrow> Response list \<Rightarrow> Content" where
  "synthesizerContent prompt refinedResponses =
     \<lparr>role = User,
      parts = parts prompt @
        mapIndexed (\<lambda>i res. Text (nl @ nl @ ''--- Refined Response '' @ toString (i + 1)
                                   @ '' ---'' @ nl @ responseText res)) 0 refinedResponses\<rparr>"

definition synthesizerRequest :: "AppState \<Rightarrow> Content list \<Rightarrow> Content \<Rightarrow> Request" where
  \<comment> \<open>A call with \<open>synthesizerConfig\<close>: the first synthesis and the corrected one.\<close>
  "synthesizerRequest env hist c =
     \<lparr>model = modelName env, contents = Turns (hist @ [c]),
      systemInstruction = Some SYNTHESIZER_SYSTEM_INSTRUCTION,
      temperature = Some (synthesizerTemp env),
      tools = (if length (codeInterpreterTool env) > 0 then Some (codeInterpreterTool env)
               else None),
      responseSchema = None\<rparr>"

definition critiqueRequest :: "Content \<Rightarrow> Response \<Rightarrow> Request" where
  "critiqueRequest prompt finalResponse =
     \<lparr>model = Gemini25Flash,
      contents = Turns
        [\<lparr>role = User,
          parts = parts prompt @
            [Text (nl @ nl @ ''--- Proposed Final Answer to Critique ---'' @ nl
                   @ responseText finalResponse)]\<rparr>],
      systemInstruction = Some CRITIC_SYSTEM_INSTRUCTION, temperature = Some (1 / 10),
      tools = None, responseSchema = None\<rparr>"

definition secondSynthesizerContent :: "Content \<Rightarrow> Response \<Rightarrow> Content" where
  "secondSynthesizerContent synthContent critiqueResponse =
     \<lparr>role = User,
      parts = parts synthContent @
        [Text (nl @ nl @ ''--- Critique of Previous Attempt ---'' @ nl
               @ responseText critiqueResponse),
         Text (nl @ nl @ ''--- Your Task ---'' @ nl
               @ ''Generate a new, superior final response that addresses the critique.'')]\<rparr>"

definition isPerfect :: "Response \<Rightarrow> bool" where
  \<comment> \<open>The negation of the test \<open>critiqueResponse.text.trim().toUpperCase() !== 'PERFECT'\<close>.
      The code units that \<open>toUpperChar\<close> leaves in place have upper-case forms without
      any of the letters of PERFECT, so the outcome of the comparison is the source's.\<close>
  "isPerfect critiqueResponse = (toUpperCase (trim (responseText critiqueResponse)) = ''PERFECT'')"

definition selfCorrection ::
  "World \<Rightarrow> AppState \<Rightarrow> Content list \<Rightarrow> Content \<Rightarrow> Content \<Rightarrow> Response \<Rightarrow> nat
     \<Rightarrow> (Response \<times> nat) Proc" where
  \<comment> \<open>Yields the response that is final and the task index reached.\<close>
  "selfCorrection w env hist prompt synthContent finalResponse taskIndex =
     (if isSelfCorrectionEnabled env
      then bnd (runTask (generateContent w (critiqueRequest prompt finalResponse))
                  (taskIndex + 1))
             (\<lambda>critiqueResponse.
                if \<not> isPerfect critiqueResponse
                then bnd (generateContent w
                            (synthesizerRequest env hist
                               (secondSynthesizerContent synthContent critiqueResponse)))
                       (\<lambda>improvedFinalResponse. ret (improvedFinalResponse, taskIndex + 1))
                else ret (finalResponse, taskIndex + 1))
      else ret (finalResponse, taskIndex))"

definition modelMessage ::
  "Response \<Rightarrow> Source list \<Rightarrow> GenerationDetails \<Rightarrow> Message" where
  "modelMessage finalResponse srcs details =
     \<lparr>role = Model, parts = [Text (responseText finalResponse)], sources = Some srcs,
      messageFiles = None, isError = None, generationDetails = Some details,
      toolOutputs = Some (parseToolOutputs finalResponse)\<rparr>"

definition detailsOf :: "Response list \<Rightarrow> Response list \<Rightarrow> GenerationDetails" where
  "detailsOf initialResponses refinedResponses =
     \<lparr>initial = map responseText initialResponses,
      refined = map responseText refinedResponses\<rparr>"

definition draftStages ::
  "World \<Rightarrow> AppState \<Rightarrow> string \<Rightarrow> Content list \<Rightarrow> Content \<Rightarrow> Source list \<Rightarrow> nat
     \<Rightarrow> string Proc" where
  \<comment> \<open>From the fan-out of the initial drafts to the appended message.\<close>
  "draftStages w env cid hist prompt srcs taskIndex =
     bnd (runTask (generateAll w (initialRequests env hist prompt)) taskIndex)
       (\<lambda>initialResponses.
     bnd (runTask (generateAll w (refinementRequests env hist prompt initialResponses))
            (taskIndex + 1))
       (\<lambda>refinedResponses.
     let details = detailsOf initialResponses refinedResponses;
         synthContent = synthesizerContent prompt refinedResponses
     in
     bnd (runTask (generateContent w (synthesizerRequest env hist synthContent))
            (taskIndex + 2))
       (\<lambda>finalResponse0.
     bnd (selfCorrection w env hist prompt synthContent finalResponse0 (taskIndex + 2))
       (\<lambda>(finalResponse, taskIndex') s.
          (Inr (responseText finalResponse),
           updateConversationMessages cid
             (\<lambda>current. current @ [modelMessage finalResponse srcs details])
             (setTaskStatus taskIndex' Completed s))))))"

definition balancedOrDeepGeneration ::
  "World \<Rightarrow> AppState \<Rightarrow> string \<Rightarrow> string \<Rightarrow> Part list \<Rightarrow> Content list \<Rightarrow> string option
     \<Rightarrow> string Proc" where
  \<comment> \<open>The \<open>else\<close> branch of the \<open>try\<close> block; it yields \<open>finalResponseText\<close>. The first
      task is the placeholder for the history, a delay of 100 ms without a call.\<close>
  "balancedOrDeepGeneration w env cid finalInputWithContext fileParts hist confirmedSearchQuery =
     bnd (runTask (ret ()) 0) (\<lambda>u.
     bnd (searchStage w env finalInputWithContext confirmedSearchQuery)
       (\<lambda>(webContext, srcs, taskIndex).
          draftStages w env cid hist
            (promptWithContext finalInputWithContext webContext fileParts) srcs taskIndex))"

definition tryBlock ::
  "World \<Rightarrow> AppState \<Rightarrow> string \<Rightarrow> string \<Rightarrow> Part list \<Rightarrow> Content list \<Rightarrow> string option
     \<Rightarrow> string Proc" where
  \<comment> \<open>The \<open>try\<close> block of \<open>executeGeneration\<close>; \<open>env\<close> is the state the closure reads.\<close>
  "tryBlock w env cid userInput fileParts hist confirmedSearchQuery =
     (let finalInputWithContext = contextPrefix env @ userInput
      in if generationDepth env = DepthFast
         then fastGeneration w env cid finalInputWithContext fileParts hist
         else balancedOrDeepGeneration w env cid finalInputWithContext fileParts hist
                confirmedSearchQuery)"

definition catchBlock :: "string \<Rightarrow> JsError \<Rightarrow> AppState \<Rightarrow> AppState" where
  \<comment> \<open>It also resets \<open>finalResponseText\<close>, which \<open>executeGeneration\<close> below passes on as empty.\<close>
  "catchBlock cid error s =
     updateConversationMessages cid
       (\<lambda>current. current @ [errorMessage (friendlyMessage error)]) s"

definition finallyBlock :: "World \<Rightarrow> AppState \<Rightarrow> string \<Rightarrow> string \<Rightarrow> AppState \<Rightarrow> AppState" where
  \<comment> \<open>The two enrichment calls are not awaited; the model runs them one after the other.\<close>
  "finallyBlock w env userInput finalResponseText s =
     (let s1 = s\<lparr>isLoading := False\<rparr>
      in if finalResponseText \<noteq> []
         then generateProactiveSuggestions w userInput finalResponseText
                (if isLongTermMemoryEnabled env
                 then generateAndStoreMemory w userInput finalResponseText s1
                 else s1)
         else s1)"

definition executeGeneration ::
  "World \<Rightarrow> string \<Rightarrow> Part list \<Rightarrow> Content list \<Rightarrow> string option \<Rightarrow> AppState \<Rightarrow> AppState" where
  "executeGeneration w userInput fileParts hist confirmedSearchQuery s =
     (if \<not> ai s then s
      else case currentConversationId s of
        None \<Rightarrow> s
      | Some cid \<Rightarrow>
          let s1 = s\<lparr>loadingTasks := buildLoadingTasks (researchMode s) (generationDepth s)
                                        (isSelfCorrectionEnabled s)\<rparr>
          in case tryBlock w s cid userInput fileParts hist confirmedSearchQuery s1 of
               (Inr finalResponseText, s2) \<Rightarrow> finallyBlock w s userInput finalResponseText s2
             | (Inl error, s2) \<Rightarrow> finallyBlock w s userInput [] (catchBlock cid error s2))"

section \<open>Submission and the search gate\<close>

definition searchRefinerRequest :: "string \<Rightarrow> Request" where
  "searchRefinerRequest userInput =
     \<lparr>model = Gemini25Flash, contents = Plain userInput,
      systemInstruction = Some SEARCH_REFINER_SYSTEM_INSTRUCTION, temperature = None,
      tools = None, responseSchema = Some SearchQuerySchema\<rparr>"

definition SEARCH_REFINEMENT_FAILED :: string where
  "SEARCH_REFINEMENT_FAILED =
     ''Desculpe, houve um erro ao tentar refinar sua pesquisa. Por favor, tente novamente.''"

definition proposeQuery :: "World \<Rightarrow> string \<Rightarrow> (string \<times> string list) Proc" where
  \<comment> \<open>The \<open>try\<close> block of the search gate: the refiner call and \<open>JSON.parse\<close>.\<close>
  "proposeQuery w userInput =
     bnd (generateContent w (searchRefinerRequest userInput))
       (\<lambda>response s. (parseSearchQuery w (responseText response), s))"

definition userMessageOf :: "string \<Rightarrow> AttachedFile list \<Rightarrow> Message" where
  "userMessageOf userInput files =
     \<lparr>role = User, parts = Text userInput # map content files,
      sources = None, messageFiles = Some (map fileName files),
      isError = None, generationDetails = None, toolOutputs = None\<rparr>"

definition acceptSubmission :: "string \<Rightarrow> string \<Rightarrow> Conversation \<Rightarrow> AppState \<Rightarrow> AppState" where
  \<comment> \<open>The state updates of \<open>handleSubmit\<close> between its guards and the search gate: the
      title of a first message, the user message, the cleared input, the loading flag.\<close>
  "acceptSubmission cid userInput currentConversation s =
     (let s1 = s\<lparr>proactiveSuggestions := []\<rparr>;
          s2 = (if length (messages currentConversation) = 0
                then s1\<lparr>conversations :=
                          map (\<lambda>c. if convId c = cid
                                   then c\<lparr>title := take 40 (trim userInput)
                                            @ (if length (trim userInput) > 40
                                               then ''...'' else [])\<rparr>
                                   else c) (conversations s1)\<rparr>
                else s1);
          s3 = updateConversationMessages cid
                 (\<lambda>current. current @ [userMessageOf userInput (attachedFiles s)]) s2
      in s3\<lparr>input := [], attachedFiles := [], isLoading := True, timer := 0,
            isRefinePanelOpen := False\<rparr>)"

definition searchGate ::
  "World \<Rightarrow> string \<Rightarrow> string \<Rightarrow> Part list \<Rightarrow> Content list \<Rightarrow> AppState \<Rightarrow> AppState" where
  \<comment> \<open>The branch of \<open>handleSubmit\<close> for the mode \<open>web\<close>: it ends with the confirmation
      pending, or with an error message, and never calls \<open>executeGeneration\<close>.\<close>
  "searchGate w cid userInput fileParts hist s =
     (case proposeQuery w userInput s of
        (Inr (query, qs), s1) \<Rightarrow>
          s1\<lparr>searchConfirmationData :=
                Some \<lparr>originalUserInput = userInput, searchQuery = query,
                      questions = qs, attachedFileParts = fileParts, history = hist\<rparr>,
              showSearchConfirmation := True\<rparr>
      | (Inl error, s1) \<Rightarrow>
          (updateConversationMessages cid
             (\<lambda>current. current @ [errorMessage SEARCH_REFINEMENT_FAILED]) s1)
          \<lparr>isLoading := False\<rparr>)"

definition handleSubmit :: "World \<Rightarrow> string option \<Rightarrow> AppState \<Rightarrow> AppState" where
  \<comment> \<open>The draft kept in \<open>localStorage\<close> is not part of the state and is left out.\<close>
  "handleSubmit w overrideInput s =
     (let inputToUse = (case overrideInput of None \<Rightarrow> input s | Some v \<Rightarrow> v)
      in if trim inputToUse = [] \<and> length (attachedFiles s) = 0
         then s\<lparr>notification :=
                  Some (''Por favor, insira uma mensagem ou anexe um arquivo.'', ''error'')\<rparr>
         else if \<not> ai s \<or> isLoading s then s
         else case currentConversationId s of
           None \<Rightarrow> s
         | Some cid \<Rightarrow>
             let userInput = inputToUse
             in case find (\<lambda>c. convId c = cid) (conversations s) of
                  None \<Rightarrow> s\<lparr>proactiveSuggestions := []\<rparr>
                | Some currentConversation \<Rightarrow>
                    let hist = buildHistory (messages currentConversation);
                        fileParts = map content (attachedFiles s);
                        s1 = acceptSubmission cid userInput currentConversation s
                    in if researchMode s = ResearchWeb \<and> generationDepth s \<noteq> DepthFast
                       then searchGate w cid userInput fileParts hist s1
                       else executeGeneration w userInput fileParts hist None s1)"

definition handleSearchConfirmation :: "World \<Rightarrow> string \<Rightarrow> AppState \<Rightarrow> AppState" where
  "handleSearchConfirmation w confirmedQuery s =
     (case searchConfirmationData s of
        None \<Rightarrow> s
      | Some d \<Rightarrow>
          (executeGeneration w (originalUserInput d) (attachedFileParts d) (history d)
             (Some confirmedQuery) (s\<lparr>showSearchConfirmation := False\<rparr>))
          \<lparr>searchConfirmationData := None\<rparr>)"

definition handleSearchCancel :: "AppState \<Rightarrow> AppState" where
  "handleSearchCancel s =
     s\<lparr>showSearchConfirmation := False, searchConfirmationData := None, isLoading := False\<rparr>"

section \<open>Start state and the log of calls\<close>

definition startState :: "string \<Rightarrow> AppState" where
  \<comment> \<open>The \<open>useState\<close> defaults after the first effect ran with an empty \<open>localStorage\<close>:
      the gateway client exists and \<open>handleNewChat\<close> made one conversation.\<close>
  "startState newId =
     \<lparr>ai = True,
      conversations = [\<lparr>convId = newId, title = ''Nova Conversa'', messages = []\<rparr>],
      currentConversationId = Some newId, input = [], attachedFiles = [], isLoading = False,
      loadingTasks = [], timer = 0, notification = None,
      initialTemps = [9 / 10, 9 / 10, 9 / 10, 9 / 10], refinementTemp = 9 / 10,
      synthesizerTemp = 9 / 10, researchMode = ResearchOffline, modelName = Gemini25Pro,
      generationDepth = DepthDeep, isSelfCorrectionEnabled = True, isRefinePanelOpen = False,
      isLongTermMemoryEnabled = True, longTermMemories = [], proactiveSuggestions = [],
      isCodeInterpreterEnabled = True, showSearchConfirmation = False,
      searchConfirmationData = None, calls = []\<rparr>"

definition newCalls :: "AppState \<Rightarrow> AppState \<Rightarrow> (Request \<times> (JsError + Response)) list" where
  \<comment> \<open>The calls issued between an earlier state and a later one.\<close>
  "newCalls s s' = drop (length (calls s)) (calls s')"

definition callsWith ::
  "SystemInstruction \<Rightarrow> (Request \<times> (JsError + Response)) list
     \<Rightarrow> (Request \<times> (JsError + Response)) list" where
  "callsWith instruction entries =
     filter (\<lambda>c. systemInstruction (fst c) = Some instruction) entries"

definition isEnrichment :: "Request \<times> (JsError + Response) \<Rightarrow> bool" where
  \<comment> \<open>A call of the post-generation enrichment: memory extraction or suggestions.\<close>
  "isEnrichment c \<longleftrightarrow>
     systemInstruction (fst c) = Some SUMMARIZER_SYSTEM_INSTRUCTION
     \<or> systemInstruction (fst c) = Some PROACTIVE_ASSISTANT_SYSTEM_INSTRUCTION"

definition searchRejected :: "(Request \<times> (JsError + Response)) list \<Rightarrow> bool" where
  \<comment> \<open>Some call without system instruction was rejected; in a run of balanced or deep depth
      the web search is the only such call.\<close>
  "searchRejected entries = list_ex (\<lambda>c. systemInstruction (fst c) = None \<and> isl (snd c)) entries"

definition responsesOf :: "(Request \<times> (JsError + Response)) list \<Rightarrow> Response list" where
  \<comment> \<open>The responses of a list of calls; it is used where every call of the list resolved.\<close>
  "responsesOf entries = map (\<lambda>c. projr (snd c)) entries"

definition proposal :: "World \<Rightarrow> string \<Rightarrow> nat \<Rightarrow> JsError + (string \<times> string list)" where
  \<comment> \<open>The outcome of the \<open>try\<close> block of the search gate when \<open>k\<close> calls were issued before:
      the refiner call at index \<open>k\<close>, then the parsing of its text.\<close>
  "proposal w u k =
     (case gateway w k (searchRefinerRequest u) of
        Inl e \<Rightarrow> Inl e
      | Inr x \<Rightarrow> parseSearchQuery w (responseText x))"

section \<open>Effects of a procedure\<close>

text \<open>
  Nothing in this section is in the source; it is the vocabulary of the proofs below. A
  procedure of the orchestrator changes the state in three ways only: it appends calls to
  the log, it appends messages to the current conversation and it rewrites the stage list.
  \<open>effect cid p Q\<close> says so, and that \<open>Q\<close> relates the outcome of \<open>p\<close> to the calls and
  messages it appended. The predicates after it are the postconditions used for the single
  properties.
\<close>

definition outcomes :: "World \<Rightarrow> nat \<Rightarrow> Request list \<Rightarrow> (JsError + Response) list" where
  \<comment> \<open>The results of requests issued one after the other, the first as call number \<open>k\<close>.\<close>
  "outcomes w k reqs = mapIndexed (\<lambda>i req. gateway w i req) k reqs"

definition appendMessages :: "string \<Rightarrow> Message list \<Rightarrow> AppState \<Rightarrow> AppState" where
  \<comment> \<open>Messages appended to the conversations with the given identifier.\<close>
  "appendMessages cid ms s = updateConversationMessages cid (\<lambda>current. current @ ms) s"

definition effect ::
  "string \<Rightarrow> 'a Proc \<Rightarrow> (JsError + 'a \<Rightarrow> (Request \<times> (JsError + Response)) list \<Rightarrow> Message list \<Rightarrow> bool) \<Rightarrow> bool" where
  "effect cid p Q \<longleftrightarrow>
     (\<forall>s. \<exists>new ms tasks.
        snd (p s) = (appendMessages cid ms s)\<lparr>loadingTasks := tasks, calls := calls s @ new\<rparr>
        \<and> Q (fst (p s)) new ms)"

definition draftCalls ::
  "AppState \<Rightarrow> Content list \<Rightarrow> Content \<Rightarrow> Response list \<Rightarrow> Response list
     \<Rightarrow> (Request \<times> (JsError + Response)) list" where
  \<comment> \<open>The log of a fan-out and a refinement stage in which every call resolved.\<close>
  "draftCalls env hist prompt irs rrs =
     zip (initialRequests env hist prompt) (map Inr irs)
     @ zip (refinementRequests env hist prompt irs) (map Inr rrs)"

definition searched ::
  "AppState \<Rightarrow> string \<Rightarrow> string option \<Rightarrow> (Request \<times> (JsError + Response)) list \<Rightarrow> string
     \<Rightarrow> Source list \<Rightarrow> bool" where
  \<comment> \<open>The search stage did not fail: no call in offline mode, one resolved call otherwise.\<close>
  "searched env fic q searchCalls webContext srcs \<longleftrightarrow>
     (researchMode env = ResearchOffline \<and> searchCalls = [] \<and> webContext = [] \<and> srcs = [])
     \<or> (researchMode env \<noteq> ResearchOffline \<and>
          (\<exists>x. searchCalls = [(searchRequest env fic q, Inr x)] \<and> webContext = webContextOf x
               \<and> srcs = groundingSources x []))"


definition fansOut ::
  "AppState \<Rightarrow> Content list \<Rightarrow> JsError + string \<Rightarrow> (Request \<times> (JsError + Response)) list
     \<Rightarrow> Message list \<Rightarrow> bool" where
  \<comment> \<open>The numbers of draft and refinement calls, and the details of the message.\<close>
  "fansOut env h r new ms \<longleftrightarrow>
     length (callsWith INITIAL_SYSTEM_INSTRUCTION new)
       = (if searchRejected new then 0 else numAgents (generationDepth env))
     \<and> length (callsWith REFINEMENT_SYSTEM_INSTRUCTION new)
       = (if callsWith INITIAL_SYSTEM_INSTRUCTION new \<noteq> []
             \<and> list_all (\<lambda>c. \<not> isl (snd c)) (callsWith INITIAL_SYSTEM_INSTRUCTION new)
          then numAgents (generationDepth env) else 0)
     \<and> (\<exists>prompt. map fst (callsWith REFINEMENT_SYSTEM_INSTRUCTION new)
            = (if callsWith REFINEMENT_SYSTEM_INSTRUCTION new = [] then []
               else refinementRequests env h prompt
                      (responsesOf (callsWith INITIAL_SYSTEM_INSTRUCTION new))))
     \<and> (case r of
          Inl e \<Rightarrow> ms = []
        | Inr t \<Rightarrow>
            length (callsWith INITIAL_SYSTEM_INSTRUCTION new) = numAgents (generationDepth env)
            \<and> length (callsWith REFINEMENT_SYSTEM_INSTRUCTION new)
                = numAgents (generationDepth env)
            \<and> (\<exists>m. ms = [m] \<and> isError m = None
              \<and> generationDetails m
                  = Some \<lparr>initial = map responseText
                                      (responsesOf (callsWith INITIAL_SYSTEM_INSTRUCTION new)),
                          refined = map responseText
                                      (responsesOf (callsWith REFINEMENT_SYSTEM_INSTRUCTION new))\<rparr>))"

definition finalAnswer :: "Response \<Rightarrow> JsError + string \<Rightarrow> Message list \<Rightarrow> bool" where
  \<comment> \<open>The run resolved with the text of \<open>x\<close> and appended one message with that text.\<close>
  "finalAnswer x r ms \<longleftrightarrow>
     r = Inr (responseText x)
     \<and> (\<exists>m. ms = [m] \<and> role m = Model \<and> isError m = None \<and> parts m = [Text (responseText x)])"

definition corrects ::
  "AppState \<Rightarrow> Content list \<Rightarrow> JsError + string \<Rightarrow> (Request \<times> (JsError + Response)) list
     \<Rightarrow> Message list \<Rightarrow> bool" where
  \<comment> \<open>What follows a critique call that resolved.\<close>
  "corrects env h r new ms \<longleftrightarrow>
     (\<forall>creq c. (creq, Inr c) \<in> set (callsWith CRITIC_SYSTEM_INSTRUCTION new) \<longrightarrow>
        callsWith CRITIC_SYSTEM_INSTRUCTION new = [(creq, Inr c)]
        \<and> (\<exists>req0 first.
             (isPerfect c \<longrightarrow>
                callsWith SYNTHESIZER_SYSTEM_INSTRUCTION new = [(req0, Inr first)]
                \<and> finalAnswer first r ms)
             \<and> (\<not> isPerfect c \<longrightarrow>
                  (\<exists>content res1.
                     callsWith SYNTHESIZER_SYSTEM_INSTRUCTION new
                       = [(req0, Inr first),
                          (synthesizerRequest env h (secondSynthesizerContent content c), res1)]
                     \<and> (case res1 of Inl e \<Rightarrow> r = Inl e \<and> ms = []
                                      | Inr g \<Rightarrow> finalAnswer g r ms)))))
     \<and> (\<forall>e. r = Inl e \<longrightarrow> ms = [])"

definition ungated ::
  "AppState \<Rightarrow> string \<Rightarrow> Part list \<Rightarrow> Content list \<Rightarrow> string option \<Rightarrow> JsError + string
     \<Rightarrow> (Request \<times> (JsError + Response)) list \<Rightarrow> Message list \<Rightarrow> bool" where
  \<comment> \<open>The \<open>try\<close> block never asks the search refiner; it starts with the search call when
      the mode is not offline, and consists of the one fast call when the depth is fast.\<close>
  "ungated env fic fp h q r new ms \<longleftrightarrow>
     callsWith SEARCH_REFINER_SYSTEM_INSTRUCTION new = []
     \<and> (researchMode env \<noteq> ResearchOffline \<and> generationDepth env \<noteq> DepthFast \<longrightarrow>
          (\<exists>res rest. new = (searchRequest env fic q, res) # rest))
     \<and> (generationDepth env = DepthFast \<longrightarrow>
          (\<exists>res. new = [(fastRequest env fic fp h, res)]))"

section \<open>The history as the claim words it, and sample inputs\<close>

definition historyAsClaimed :: "Message list \<Rightarrow> Content list" where
  \<comment> \<open>Not from the source: the last ten messages, each reduced to its text parts with a
      non-empty text, messages without parts dropped. To be compared with \<open>buildHistory\<close>.\<close>
  "historyAsClaimed msgs =
     filter (\<lambda>c. parts c \<noteq> [])
       (map (\<lambda>msg. \<lparr>role = role msg,
                    parts = filter (\<lambda>p. case p of Text t \<Rightarrow> t \<noteq> [] | InlineData m b \<Rightarrow> False)
                              (parts msg)\<rparr>)
            (sliceLast 10 msgs))"

definition blankWithImage :: Message where
  \<comment> \<open>What \<open>handleSubmit\<close> appends when the user sends one space and one attached image.\<close>
  "blankWithImage =
     \<lparr>role = User, parts = [Text '' '', InlineData ''image/png'' ''iVBORw0KGgo=''],
      sources = None, messageFiles = Some [''photo.png''], isError = None,
      generationDetails = None, toolOutputs = None\<rparr>"

definition thirteenMessages :: "Message list" where
  "thirteenMessages =
     map (\<lambda>i. \<lparr>role = User,
               parts = [Text (''message number '' @ toString i),
                        InlineData ''image/png'' ''AA=='', Text '' ''],
               sources = None, messageFiles = None, isError = None,
               generationDetails = None, toolOutputs = None\<rparr>) [0..<12]
     @ [blankWithImage]"

definition plainResponse :: "string \<Rightarrow> Response" where
  \<comment> \<open>A response with a text, no tool output and no grounding.\<close>
  "plainResponse t = \<lparr>responseText = t, candidateParts = None, groundingChunks = None\<rparr>"


definition criticWorld :: "string \<Rightarrow> World" where
  \<comment> \<open>The critic answers with the given verdict; the synthesis call that is call number 4
      (the first one of a balanced offline run) and the later ones answer differently.\<close>
  "criticWorld verdict =
     \<lparr>gateway = (\<lambda>k req.
         Inr (plainResponse
           (if systemInstruction req = Some CRITIC_SYSTEM_INSTRUCTION then verdict
            else if systemInstruction req = Some SYNTHESIZER_SYSTEM_INSTRUCTION
              then (if k = 4 then ''first answer'' else ''improved answer'')
            else ''draft''))),
      parseSearchQuery = (\<lambda>t. Inr (t, [])),
      parseSuggestions = (\<lambda>t. Inr (Some [t]))\<rparr>"

definition flakyWorld :: World where
  \<comment> \<open>The call number 1 is blocked; every other call resolves.\<close>
  "flakyWorld =
     \<lparr>gateway = (\<lambda>k req. if k = 1 then Inl (Error ''SAFETY block'')
                          else Inr (plainResponse ''draft'')),
      parseSearchQuery = (\<lambda>t. Inr (t, [])),
      parseSuggestions = (\<lambda>t. Inr (Some [t]))\<rparr>"

definition rejectingWorld :: World where
  \<comment> \<open>Every call is rejected.\<close>
  "rejectingWorld =
     \<lparr>gateway = (\<lambda>k req. Inl (Error ''503 Service Unavailable'')),
      parseSearchQuery = (\<lambda>t. Inr (t, [])),
      parseSuggestions = (\<lambda>t. Inr (Some [t]))\<rparr>"

definition echoWorld :: World where
  \<comment> \<open>Every call resolves with the same text; the refiner's text parses to a query and
      three questions.\<close>
  "echoWorld =
     \<lparr>gateway = (\<lambda>k req. Inr (plainResponse ''kyoto travel guide'')),
      parseSearchQuery = (\<lambda>t. Inr (t, [''When?'', ''How long?'', ''Budget?''])),
      parseSuggestions = (\<lambda>t. Inr (Some [t]))\<rparr>"

definition balancedState :: AppState where
  \<comment> \<open>The start state with the depth set to balanced (offline, self-correction on).\<close>
  "balancedState = (startState ''1'')\<lparr>generationDepth := DepthBalanced\<rparr>"

definition webState :: AppState where
  \<comment> \<open>The start state with the research mode set to web (depth deep).\<close>
  "webState = (startState ''1'')\<lparr>researchMode := ResearchWeb\<rparr>"

definition deepState :: AppState where
  \<comment> \<open>The start state with the research mode set to deep (depth deep).\<close>
  "deepState = (startState ''1'')\<lparr>researchMode := ResearchDeep\<rparr>"

definition webBalancedState :: AppState where
  \<comment> \<open>Research mode web, depth balanced.\<close>
  "webBalancedState = (startState ''1'')\<lparr>researchMode := ResearchWeb, generationDepth := DepthBalanced\<rparr>"

section \<open>Stage tracker: properties\<close>

lemmas task_defs = HISTORY_PROCESSING_TASK_def BRAINSTORMING_TASK_def REFINING_TASK_def
  SYNTHESIZING_TASK_def CRITIC_TASK_def SEARCHING_TASK_def FAST_TASK_def
  OFFLINE_TASKS_def WEB_RESEARCH_TASKS_def DEEP_RESEARCH_TASKS_def

lemma length_mapIndexed [simp]: "length (mapIndexed f i xs) = length xs"
  by (induction xs arbitrary: i) auto

lemma nth_mapIndexed: "j < length xs \<Longrightarrow> mapIndexed f i xs ! j = f (i + j) (xs ! j)"
proof (induction xs arbitrary: i j)
  case Nil
  then show ?case by simp
next
  case (Cons x xs)
  then show ?case by (cases j) auto
qed

lemma length_updateTaskStatus [simp]: "length (updateTaskStatus i st tasks) = length tasks"
  by (simp add: updateTaskStatus_def)

lemma nth_updateTaskStatus:
  "j < length tasks \<Longrightarrow>
   updateTaskStatus i st tasks ! j =
     (tasks ! j)\<lparr>status := (if j < i then Completed else if j = i then st else Pending)\<rparr>"
  by (simp add: updateTaskStatus_def nth_mapIndexed)

lemma updateTaskStatus_idem:
  "updateTaskStatus i st (updateTaskStatus i st tasks) = updateTaskStatus i st tasks"
  by (rule nth_equalityI) (simp_all add: nth_updateTaskStatus)

text \<open>
  Claim C6. Whatever the research mode, the depth and the self-correction flag, the stage
  list built at the start of a run is the single stage "Gerando resposta..." when the depth
  is fast; otherwise it is history, then the search stage unless the mode is offline, then
  brainstorming, refining and synthesis, then the critique stage exactly when
  self-correction is enabled, in this order, every stage pending. The seven stage names
  are pairwise different, so removing by name removes the critique stage only.
\<close>

theorem C6_stage_list:
  "buildLoadingTasks mode depth sc =
     (if depth = DepthFast then [FAST_TASK]
      else [HISTORY_PROCESSING_TASK]
           @ (if mode = ResearchOffline then [] else [SEARCHING_TASK])
           @ [BRAINSTORMING_TASK, REFINING_TASK, SYNTHESIZING_TASK]
           @ (if sc then [CRITIC_TASK] else []))
   \<and> list_all (\<lambda>t. status t = Pending) (buildLoadingTasks mode depth sc)
   \<and> distinct (map name [FAST_TASK, HISTORY_PROCESSING_TASK, SEARCHING_TASK,
        BRAINSTORMING_TASK, REFINING_TASK, SYNTHESIZING_TASK, CRITIC_TASK])"
  by (cases mode; cases depth; cases sc)
     (simp_all add: buildLoadingTasks_def currentTaskTemplate_def task_defs)

theorem C6_stage_list_witness:
  "map name (buildLoadingTasks ResearchWeb DepthBalanced False) =
     [''Processando hist'' @ [CHR 0xF3] @ ''rico...'', ''Pesquisando na web...'',
      ''Brainstorming...'', ''Refinando rascunhos...'', ''Sintetizando resposta...'']
   \<and> map name (buildLoadingTasks ResearchDeep DepthFast True) = [''Gerando resposta...'']"
  using C6_stage_list [of ResearchWeb DepthBalanced False]
    C6_stage_list [of ResearchDeep DepthFast True]
  by (simp add: task_defs)

text \<open>
  Claim C7. For an index \<open>i\<close> inside the stage list, advancing to \<open>i\<close> (the call
  \<open>updateTaskStatus(i, 'active')\<close>) keeps the length, the names and the icons, makes stage
  \<open>i\<close> active, every earlier stage completed and every later stage pending; and advancing
  to \<open>i\<close> a second time changes nothing.
\<close>

theorem C7_advance:
  assumes "i < length tasks"
  shows "length (updateTaskStatus i Active tasks) = length tasks
       \<and> status (updateTaskStatus i Active tasks ! i) = Active
       \<and> (\<forall>j < i. status (updateTaskStatus i Active tasks ! j) = Completed)
       \<and> (\<forall>j. i < j \<and> j < length tasks
              \<longrightarrow> status (updateTaskStatus i Active tasks ! j) = Pending)
       \<and> map name (updateTaskStatus i Active tasks) = map name tasks
       \<and> map icon (updateTaskStatus i Active tasks) = map icon tasks
       \<and> updateTaskStatus i Active (updateTaskStatus i Active tasks)
           = updateTaskStatus i Active tasks"
proof -
  have names: "map name (updateTaskStatus i Active tasks) = map name tasks"
    by (rule nth_equalityI) (simp_all add: nth_updateTaskStatus)
  have icons: "map icon (updateTaskStatus i Active tasks) = map icon tasks"
    by (rule nth_equalityI) (simp_all add: nth_updateTaskStatus)
  from assms names icons show ?thesis
    by (simp add: nth_updateTaskStatus updateTaskStatus_idem)
qed

theorem C7_advance_witness:
  "(2::nat) < length OFFLINE_TASKS
   \<and> map status (updateTaskStatus 2 Active OFFLINE_TASKS)
       = [Completed, Completed, Active, Pending, Pending]
   \<and> updateTaskStatus 2 Active (updateTaskStatus 2 Active OFFLINE_TASKS)
       = updateTaskStatus 2 Active OFFLINE_TASKS"
  using C7_advance [of 2 OFFLINE_TASKS]
  by (simp add: task_defs updateTaskStatus_def)

text \<open>
  Claim C5. The claim wants the progress ratio to be 0 for a list of at most one stage.
  The guard of \<open>LoadingIndicator\<close> is \<open>tasks.length > 0\<close>, so the one-stage list of a
  fast-depth run reaches the division by \<open>tasks.length - 1 = 0\<close>: while the stage is
  pending or active the result is \<open>NaN\<close>, and once it is completed the result is
  \<open>Infinity\<close>; neither is 0.
\<close>

theorem C5_single_stage_divides_by_zero:
  "progressPercentage [FAST_TASK\<lparr>status := Active\<rparr>] = NaN
   \<and> progressPercentage
        (updateTaskStatus 0 Active (buildLoadingTasks ResearchOffline DepthFast True)) = NaN
   \<and> progressPercentage
        (updateTaskStatus 0 Completed (buildLoadingTasks ResearchOffline DepthFast True))
       = PosInfinity"
  by (simp add: progressPercentage_def completedCount_def jsDivide_def jsTimes_def
        buildLoadingTasks_def updateTaskStatus_def FAST_TASK_def)

text \<open>With two stages or more the bar is the completed count over the stage count less one.\<close>

lemma progressPercentage_two_or_more:
  "2 \<le> length tasks \<Longrightarrow>
   progressPercentage tasks
     = Num (of_nat (completedCount tasks) / of_nat (length tasks - 1) * 100)"
  by (auto simp add: progressPercentage_def jsDivide_def jsTimes_def of_nat_diff)

lemma progressPercentage_empty: "progressPercentage [] = Num 0"
  by (simp add: progressPercentage_def)

section \<open>Long-term memory: properties\<close>

text \<open>The extraction path: a short candidate is dropped, a longer one goes to the front.\<close>

lemma admitMemory_rejects: "length (trim t) \<le> 10 \<Longrightarrow> admitMemory t prev = prev"
  by (simp add: admitMemory_def)

lemma admitMemory_admits:
  assumes "10 < length (trim t)"
  shows "admitMemory t prev = take 20 (trim t # filter (\<lambda>m. m \<noteq> trim t) prev)"
    and "hd (admitMemory t prev) = trim t"
    and "count_list (admitMemory t prev) (trim t) = 1"
    and "length (admitMemory t prev) \<le> 20"
proof -
  from assms have ne: "trim t \<noteq> []" by auto
  with assms show eq: "admitMemory t prev = take 20 (trim t # filter (\<lambda>m. m \<noteq> trim t) prev)"
    by (simp add: admitMemory_def storeMemory_def MAX_MEMORIES_def Let_def)
  show "hd (admitMemory t prev) = trim t" by (simp add: eq take_Cons')
  have "count_list (take n (filter (\<lambda>m. m \<noteq> x) ys)) x = 0" for n x and ys :: "string list"
    by (auto simp: count_list_0_iff dest: in_set_takeD)
  then show "count_list (admitMemory t prev) (trim t) = 1"
    by (simp add: eq take_Cons')
  show "length (admitMemory t prev) \<le> 20" by (simp add: eq)
qed

lemma admitMemory_bound: "length prev \<le> 20 \<Longrightarrow> length (admitMemory t prev) \<le> 20"
  by (simp add: admitMemory_def storeMemory_def MAX_MEMORIES_def Let_def)

text \<open>
  Claim C8. The claim ends with: the long-term memory list never exceeds 20 entries. The
  extraction path keeps that bound (\<open>admitMemory_bound\<close>), but the memory modal adds with
  \<open>prev => [memory, ...prev]\<close>, without the cap and without the removal of an equal
  entry: from a list of 20 entries one manual addition gives 21, and adding the same text
  twice stores it twice.
\<close>

theorem C8_manual_add_exceeds_cap:
  "length (longTermMemories
     (handleAdd ''Prefers tea''
        ((startState ''1'')\<lparr>longTermMemories := map toString [0..<20]\<rparr>))) = 21
   \<and> longTermMemories (handleAdd ''Prefers tea'' (handleAdd ''Prefers tea'' (startState ''1'')))
       = [''Prefers tea'', ''Prefers tea'']"
  by code_simp

section \<open>Conversation history: properties\<close>

lemma sliceLast_rev_take: "sliceLast n xs = rev (take n (rev xs))"
  by (simp add: sliceLast_def rev_take)

text \<open>
  Claim C10, as stated, fails. A message whose only text part is one space, sent with an
  image, is reduced to no part at all and dropped from the history, because the source
  tests \<open>p.text.trim() !== ''\<close>; keeping the non-empty text parts would keep the space.
\<close>

theorem C10_history_counterexample:
  "buildHistory [blankWithImage] = []
   \<and> historyAsClaimed [blankWithImage] = [\<lparr>role = User, parts = [Text '' '']\<rparr>]"
  by (simp add: buildHistory_def historyAsClaimed_def blankWithImage_def sliceLast_def
        MAX_HISTORY_MESSAGES_def isHistoryPart_def trim_def isWhiteSpace_def)

lemma isHistoryPart_iff: "isHistoryPart p \<longleftrightarrow> (\<exists>t. p = Text t \<and> trim t \<noteq> [])"
  by (cases p) (simp_all add: isHistoryPart_def)

text \<open>
  Claim C10, amended. The history is made from the last 10 messages of the conversation:
  each message that has a text part which is not blank (not empty after trimming white
  space) is kept, with its role, reduced to exactly those text parts in their order; every
  other message is dropped. So the history has at most 10 entries, none without parts, and
  every part in it is a text part that is not blank.
\<close>

theorem C10_history_amended:
  "buildHistory msgs =
     map (\<lambda>m. \<lparr>role = role m,
                parts = filter (\<lambda>p. \<exists>t. p = Text t \<and> trim t \<noteq> []) (parts m)\<rparr>)
       (filter (\<lambda>m. \<exists>p \<in> set (parts m). \<exists>t. p = Text t \<and> trim t \<noteq> [])
          (rev (take 10 (rev msgs))))
   \<and> length (buildHistory msgs) \<le> 10
   \<and> (\<forall>c \<in> set (buildHistory msgs).
         parts c \<noteq> [] \<and> (\<forall>p \<in> set (parts c). \<exists>t. p = Text t \<and> trim t \<noteq> []))"
proof -
  have pred: "isHistoryPart = (\<lambda>p. \<exists>t. p = Text t \<and> trim t \<noteq> [])"
    by (rule ext) (rule isHistoryPart_iff)
  have eq: "buildHistory msgs =
     map (\<lambda>m. \<lparr>role = role m,
                parts = filter (\<lambda>p. \<exists>t. p = Text t \<and> trim t \<noteq> []) (parts m)\<rparr>)
       (filter (\<lambda>m. \<exists>p \<in> set (parts m). \<exists>t. p = Text t \<and> trim t \<noteq> [])
          (rev (take 10 (rev msgs))))"
    unfolding pred [symmetric]
    by (simp add: buildHistory_def sliceLast_rev_take MAX_HISTORY_MESSAGES_def filter_map
          comp_def filter_empty_conv)
  have len: "length (buildHistory msgs) \<le> 10"
    unfolding eq length_map
    by (rule order_trans [OF length_filter_le]) simp
  have "parts c \<noteq> [] \<and> (\<forall>p \<in> set (parts c). \<exists>t. p = Text t \<and> trim t \<noteq> [])"
    if "c \<in> set (buildHistory msgs)" for c
    using that unfolding eq by (auto simp: filter_empty_conv)
  with eq len show ?thesis by blast
qed

theorem C10_history_amended_witness:
  "buildHistory thirteenMessages
     = map (\<lambda>i. \<lparr>role = User, parts = [Text (''message number '' @ toString i)]\<rparr>) [3..<12]
   \<and> length (buildHistory thirteenMessages) \<le> 10"
proof -
  have "buildHistory thirteenMessages
          = map (\<lambda>i. \<lparr>role = User, parts = [Text (''message number '' @ toString i)]\<rparr>) [3..<12]"
    by code_simp
  moreover have "length (buildHistory thirteenMessages) \<le> 10"
    using C10_history_amended [of thirteenMessages] by blast
  ultimately show ?thesis by simp
qed

lemma setTaskStatus_advance:
  "loadingTasks (setTaskStatus i st s) = updateTaskStatus i st (loadingTasks s)"
  by (simp add: setTaskStatus_def)

section \<open>The effect calculus\<close>

lemma length_outcomes [simp]: "length (outcomes w k reqs) = length reqs"
  by (simp add: outcomes_def)

lemma outcomes_Nil [simp]: "outcomes w k [] = []"
  by (simp add: outcomes_def)

lemma outcomes_Cons: "outcomes w k (r # rs) = gateway w k r # outcomes w (Suc k) rs"
  by (simp add: outcomes_def)

lemma generateContents_eq:
  "generateContents w reqs s =
     (outcomes w (length (calls s)) reqs,
      s\<lparr>calls := calls s @ zip reqs (outcomes w (length (calls s)) reqs)\<rparr>)"
proof (induction reqs arbitrary: s)
  case Nil
  then show ?case by simp
next
  case (Cons r rs)
  then show ?case by (simp add: generateContent_def outcomes_Cons Let_def)
qed

lemma generateAll_eq:
  "generateAll w reqs s =
     (promiseAll (outcomes w (length (calls s)) reqs),
      s\<lparr>calls := calls s @ zip reqs (outcomes w (length (calls s)) reqs)\<rparr>)"
  by (simp add: generateAll_def generateContents_eq)

lemma promiseAll_Inr: "promiseAll rs = Inr xs \<Longrightarrow> rs = map Inr xs"
proof (induction rs arbitrary: xs)
  case Nil
  then show ?case by simp
next
  case (Cons r rs)
  then show ?case by (cases r) (auto split: sum.splits)
qed

lemma promiseAll_Inl: "promiseAll rs = Inl e \<Longrightarrow> Inl e \<in> set rs"
proof (induction rs)
  case Nil
  then show ?case by simp
next
  case (Cons r rs)
  then show ?case by (cases r) (auto split: sum.splits)
qed

lemma promiseAll_map_Inr [simp]: "promiseAll (map Inr xs) = Inr xs"
  by (induction xs) auto

lemma appendMessages_Nil [simp]: "appendMessages cid [] s = s"
  by (simp add: appendMessages_def updateConversationMessages_def map_idI)

lemma appendMessages_fields [simp]:
  "calls (appendMessages cid ms s) = calls s"
  "loadingTasks (appendMessages cid ms s) = loadingTasks s"
  by (simp_all add: appendMessages_def updateConversationMessages_def)

lemma appendMessages_upd [simp]:
  "appendMessages cid ms (s\<lparr>loadingTasks := t\<rparr>) = (appendMessages cid ms s)\<lparr>loadingTasks := t\<rparr>"
  "appendMessages cid ms (s\<lparr>calls := l\<rparr>) = (appendMessages cid ms s)\<lparr>calls := l\<rparr>"
  by (simp_all add: appendMessages_def updateConversationMessages_def)

lemma appendMessages_append [simp]:
  "appendMessages cid ms2 (appendMessages cid ms1 s) = appendMessages cid (ms1 @ ms2) s"
  by (simp add: appendMessages_def updateConversationMessages_def comp_def cong: if_cong)

lemma effectI:
  assumes "\<And>s. \<exists>new ms tasks.
        snd (p s) = (appendMessages cid ms s)\<lparr>loadingTasks := tasks, calls := calls s @ new\<rparr>
        \<and> Q (fst (p s)) new ms"
  shows "effect cid p Q"
  using assms by (simp add: effect_def)

lemma effect_ret: "effect cid (ret x) (\<lambda>r new ms. r = Inr x \<and> new = [] \<and> ms = [])"
  unfolding effect_def ret_def
  apply (intro allI)
  subgoal for s
    by (rule exI [of _ "[]"], rule exI [of _ "[]"], rule exI [of _ "loadingTasks s"]) simp
  done

lemma effect_generateContent:
  "effect cid (generateContent w req) (\<lambda>r new ms. new = [(req, r)] \<and> ms = [])"
  unfolding effect_def generateContent_def Let_def
  apply (intro allI)
  subgoal for s
    by (rule exI [of _ "[(req, gateway w (length (calls s)) req)]"], rule exI [of _ "[]"], rule exI [of _ "loadingTasks s"]) simp
  done

lemma effect_generateAll:
  "effect cid (generateAll w reqs)
     (\<lambda>r new ms. \<exists>outs. length outs = length reqs \<and> new = zip reqs outs \<and> r = promiseAll outs \<and> ms = [])"
  unfolding effect_def generateAll_eq
  apply (intro allI)
  subgoal for s
    by (rule exI [of _ "zip reqs (outcomes w (length (calls s)) reqs)"], rule exI [of _ "[]"], rule exI [of _ "loadingTasks s"])
       (auto intro!: exI [of _ "outcomes w (length (calls s)) reqs"])
  done

lemma effect_runTask:
  assumes "effect cid p Q"
  shows "effect cid (runTask p i) Q"
proof (rule effectI)
  fix s
  from assms obtain new ms tasks where
    st: "snd (p (setTaskStatus i Active s)) =
           (appendMessages cid ms (setTaskStatus i Active s))\<lparr>loadingTasks := tasks,
              calls := calls (setTaskStatus i Active s) @ new\<rparr>"
    and q: "Q (fst (p (setTaskStatus i Active s))) new ms"
    unfolding effect_def by blast
  show "\<exists>new ms tasks.
          snd (runTask p i s) = (appendMessages cid ms s)\<lparr>loadingTasks := tasks, calls := calls s @ new\<rparr>
          \<and> Q (fst (runTask p i s)) new ms"
  proof (cases "fst (p (setTaskStatus i Active s))")
    case (Inl e)
    with st q show ?thesis
      by (intro exI [of _ new] exI [of _ ms] exI [of _ tasks])
         (cases "p (setTaskStatus i Active s)", simp add: runTask_def setTaskStatus_def)
  next
    case (Inr x)
    with st q show ?thesis
      by (intro exI [of _ new] exI [of _ ms] exI [of _ "updateTaskStatus i Completed tasks"])
         (cases "p (setTaskStatus i Active s)", simp add: runTask_def setTaskStatus_def)
  qed
qed

lemma effect_bnd:
  assumes p: "effect cid p Q1"
    and f: "\<And>x n m. Q1 (Inr x) n m \<Longrightarrow> effect cid (f x) (Q2 x n m)"
  shows "effect cid (bnd p f)
           (\<lambda>r new ms. (\<exists>e. r = Inl e \<and> Q1 (Inl e) new ms)
              \<or> (\<exists>x n1 n2 m1 m2. Q1 (Inr x) n1 m1 \<and> Q2 x n1 m1 r n2 m2
                    \<and> new = n1 @ n2 \<and> ms = m1 @ m2))"
proof (rule effectI)
  fix s
  from p obtain n1 m1 t1 where
    st1: "snd (p s) = (appendMessages cid m1 s)\<lparr>loadingTasks := t1, calls := calls s @ n1\<rparr>"
    and q1: "Q1 (fst (p s)) n1 m1"
    unfolding effect_def by blast
  let ?P = "\<lambda>r new ms. (\<exists>e. r = Inl e \<and> Q1 (Inl e) new ms)
              \<or> (\<exists>x n1 n2 m1 m2. Q1 (Inr x) n1 m1 \<and> Q2 x n1 m1 r n2 m2
                    \<and> new = n1 @ n2 \<and> ms = m1 @ m2)"
  show "\<exists>new ms tasks.
          snd (bnd p f s) = (appendMessages cid ms s)\<lparr>loadingTasks := tasks, calls := calls s @ new\<rparr>
          \<and> ?P (fst (bnd p f s)) new ms"
  proof (cases "fst (p s)")
    case (Inl e)
    then have "bnd p f s = (Inl e, snd (p s))"
      by (cases "p s") (simp add: bnd_def)
    with st1 q1 Inl show ?thesis
      by (intro exI [of _ n1] exI [of _ m1] exI [of _ t1]) simp
  next
    case (Inr x)
    then have b: "bnd p f s = f x (snd (p s))"
      by (cases "p s") (simp add: bnd_def)
    from q1 Inr have q1': "Q1 (Inr x) n1 m1" by simp
    from f [OF this] obtain n2 m2 t2 where
      st2: "snd (f x (snd (p s))) =
              (appendMessages cid m2 (snd (p s)))\<lparr>loadingTasks := t2,
                 calls := calls (snd (p s)) @ n2\<rparr>"
      and q2: "Q2 x n1 m1 (fst (f x (snd (p s)))) n2 m2"
      unfolding effect_def by blast
    have "snd (bnd p f s) = (appendMessages cid (m1 @ m2) s)\<lparr>loadingTasks := t2, calls := calls s @ n1 @ n2\<rparr>"
      by (simp add: b st2) (simp add: st1)
    moreover have "?P (fst (bnd p f s)) (n1 @ n2) (m1 @ m2)"
      apply (rule disjI2)
      apply (rule exI [of _ x], rule exI [of _ n1], rule exI [of _ n2])
      apply (rule exI [of _ m1], rule exI [of _ m2])
      using q1' q2 b by simp
    ultimately show ?thesis by blast
  qed
qed

lemma effect_weaken:
  assumes "effect cid p Q" and "\<And>r new ms. Q r new ms \<Longrightarrow> Q' r new ms"
  shows "effect cid p Q'"
  using assms unfolding effect_def by blast

lemma effect_append_message:
  "effect cid (\<lambda>s. (Inr x, updateConversationMessages cid (\<lambda>current. current @ [m]) (setTaskStatus i st s)))
     (\<lambda>r new ms. r = Inr x \<and> new = [] \<and> ms = [m])"
  unfolding effect_def
  apply (intro allI)
  subgoal for s
    by (rule exI [of _ "[]"], rule exI [of _ "[m]"], rule exI [of _ "updateTaskStatus i st (loadingTasks s)"])
       (simp add: setTaskStatus_def appendMessages_def updateConversationMessages_def)
  done

lemma effect_single:
  assumes call: "effect cid p (\<lambda>r new ms. new = [(req, r)] \<and> ms = [])"
    and rejected: "\<And>e. Q (Inl e) [(req, Inl e)] []"
    and resolved: "\<And>x. effect cid (f x) (\<lambda>r new ms. Q r ((req, Inr x) # new) ms)"
  shows "effect cid (bnd p f) Q"
  apply (rule effect_weaken)
   apply (rule effect_bnd [OF call resolved])
  using rejected by auto

lemma effect_fanout:
  assumes call: "effect cid p
      (\<lambda>r new ms. \<exists>outs. length outs = length reqs \<and> new = zip reqs outs
         \<and> r = promiseAll outs \<and> ms = [])"
    and rejected:
      "\<And>outs e. length outs = length reqs \<Longrightarrow> promiseAll outs = Inl e \<Longrightarrow>
         Q (Inl e) (zip reqs outs) []"
    and resolved:
      "\<And>xs. length xs = length reqs \<Longrightarrow>
         effect cid (f xs) (\<lambda>r new ms. Q r (zip reqs (map Inr xs) @ new) ms)"
  shows "effect cid (bnd p f) Q"
proof -
  have cont: "effect cid (f xs) (\<lambda>r new ms. Q r (zip reqs (map Inr xs) @ new) ms)"
    if "\<exists>outs. length outs = length reqs \<and> n = zip reqs outs \<and> Inr xs = promiseAll outs \<and> m = []"
    for xs n m
  proof -
    from that obtain outs where "length outs = length reqs" "Inr xs = promiseAll outs" by blast
    then have "length xs = length reqs" by (metis promiseAll_Inr length_map)
    then show ?thesis by (rule resolved)
  qed
  show ?thesis
    apply (rule effect_weaken)
     apply (rule effect_bnd [OF call cont])
     apply assumption
    using rejected by (auto dest: promiseAll_Inr [OF sym])
qed

lemma effect_searchStage:
  "effect cid (searchStage w env fic q)
     (\<lambda>r new ms. ms = [] \<and>
        ((researchMode env = ResearchOffline \<and> new = [] \<and> r = Inr ([], [], 1))
         \<or> (researchMode env \<noteq> ResearchOffline \<and>
              ((\<exists>e. new = [(searchRequest env fic q, Inl e)] \<and> r = Inl e)
               \<or> (\<exists>x. new = [(searchRequest env fic q, Inr x)]
                       \<and> r = Inr (webContextOf x, groundingSources x [], 2))))))"
proof (cases "researchMode env = ResearchWeb \<or> researchMode env = ResearchDeep")
  case True
  then have ne: "researchMode env \<noteq> ResearchOffline" by auto
  show ?thesis
    unfolding searchStage_def if_P [OF True]
    apply (rule effect_weaken)
     apply (rule effect_bnd [OF effect_runTask [OF effect_generateContent] effect_ret])
    using ne by auto
next
  case False
  then have off: "researchMode env = ResearchOffline" by (cases "researchMode env") auto
  show ?thesis
    unfolding searchStage_def if_not_P [OF False]
    apply (rule effect_weaken [OF effect_ret])
    using off by simp
qed

lemma effect_selfCorrection:
  "effect cid (selfCorrection w env hist prompt sc f0 ti)
     (\<lambda>r new ms. ms = [] \<and>
        ((\<not> isSelfCorrectionEnabled env \<and> new = [] \<and> r = Inr (f0, ti))
         \<or> (isSelfCorrectionEnabled env \<and>
              ((\<exists>e. new = [(critiqueRequest prompt f0, Inl e)] \<and> r = Inl e)
               \<or> (\<exists>c. isPerfect c \<and> new = [(critiqueRequest prompt f0, Inr c)]
                       \<and> r = Inr (f0, ti + 1))
               \<or> (\<exists>c e. \<not> isPerfect c
                       \<and> new = [(critiqueRequest prompt f0, Inr c),
                                 (synthesizerRequest env hist (secondSynthesizerContent sc c), Inl e)]
                       \<and> r = Inl e)
               \<or> (\<exists>c g. \<not> isPerfect c
                       \<and> new = [(critiqueRequest prompt f0, Inr c),
                                 (synthesizerRequest env hist (secondSynthesizerContent sc c), Inr g)]
                       \<and> r = Inr (g, ti + 1))))))"
proof (cases "isSelfCorrectionEnabled env")
  case False
  show ?thesis
    unfolding selfCorrection_def if_not_P [OF False]
    apply (rule effect_weaken [OF effect_ret])
    using False by simp
next
  case True
  have inner: "effect cid
      (if \<not> isPerfect c
       then bnd (generateContent w (synthesizerRequest env hist (secondSynthesizerContent sc c)))
              (\<lambda>improvedFinalResponse. ret (improvedFinalResponse, ti + 1))
       else ret (f0, ti + 1))
      (\<lambda>r new ms. ms = [] \<and>
         ((isPerfect c \<and> new = [] \<and> r = Inr (f0, ti + 1))
          \<or> (\<exists>e. \<not> isPerfect c
                \<and> new = [(synthesizerRequest env hist (secondSynthesizerContent sc c), Inl e)]
                \<and> r = Inl e)
          \<or> (\<exists>g. \<not> isPerfect c
                \<and> new = [(synthesizerRequest env hist (secondSynthesizerContent sc c), Inr g)]
                \<and> r = Inr (g, ti + 1))))" for c
  proof (cases "isPerfect c")
    case True
    then show ?thesis
      by (simp, intro effect_weaken [OF effect_ret]) simp
  next
    case False
    then show ?thesis
      apply simp
      apply (rule effect_weaken)
       apply (rule effect_bnd [OF effect_generateContent effect_ret])
      by auto
  qed
  show ?thesis
    unfolding selfCorrection_def if_P [OF True]
    apply (rule effect_weaken)
     apply (rule effect_bnd [OF effect_runTask [OF effect_generateContent] inner])
    using True by auto
qed

lemma length_initialRequests [simp]:
  "length (initialRequests env h p) = numAgents (generationDepth env)"
  by (simp add: initialRequests_def)

lemma length_refinementRequests [simp]:
  "length (refinementRequests env h p rs) = length rs"
  by (simp add: refinementRequests_def)

lemma promiseAll_cases:
  obtains (Rejected) e where "promiseAll outs = Inl e" "Inl e \<in> set outs"
  | (Resolved) xs where "promiseAll outs = Inr xs" "outs = map Inr xs"
  by (cases "promiseAll outs") (auto dest: promiseAll_Inl promiseAll_Inr)

lemma effect_finish:
  "effect cid
     (case x of (finalResponse, taskIndex') \<Rightarrow>
        \<lambda>s. (Inr (responseText finalResponse),
             updateConversationMessages cid
               (\<lambda>current. current @ [modelMessage finalResponse srcs d])
               (setTaskStatus taskIndex' Completed s)))
     (\<lambda>r new ms. r = Inr (responseText (fst x)) \<and> new = []
        \<and> ms = [modelMessage (fst x) srcs d])"
  by (cases x) (simp add: effect_append_message)

lemma effect_draftStages:
  fixes Q :: "JsError + string \<Rightarrow> (Request \<times> (JsError + Response)) list \<Rightarrow> Message list \<Rightarrow> bool"
  assumes InitialFailed:
    "\<And>outs e. length outs = numAgents (generationDepth env) \<Longrightarrow> promiseAll outs = Inl e \<Longrightarrow>
       Q (Inl e) (zip (initialRequests env hist prompt) outs) []"
  and RefinementFailed:
    "\<And>irs outs e. length irs = numAgents (generationDepth env) \<Longrightarrow> length outs = length irs \<Longrightarrow>
       promiseAll outs = Inl e \<Longrightarrow>
       Q (Inl e) (zip (initialRequests env hist prompt) (map Inr irs)
                  @ zip (refinementRequests env hist prompt irs) outs) []"
  and SynthesisFailed:
    "\<And>irs rrs e. length irs = numAgents (generationDepth env) \<Longrightarrow> length rrs = length irs \<Longrightarrow>
       Q (Inl e) (draftCalls env hist prompt irs rrs
                  @ [(synthesizerRequest env hist (synthesizerContent prompt rrs), Inl e)]) []"
  and Uncritiqued:
    "\<And>irs rrs f. length irs = numAgents (generationDepth env) \<Longrightarrow> length rrs = length irs \<Longrightarrow>
       \<not> isSelfCorrectionEnabled env \<Longrightarrow>
       Q (Inr (responseText f))
         (draftCalls env hist prompt irs rrs
          @ [(synthesizerRequest env hist (synthesizerContent prompt rrs), Inr f)])
         [modelMessage f srcs (detailsOf irs rrs)]"
  and CritiqueFailed:
    "\<And>irs rrs f e. length irs = numAgents (generationDepth env) \<Longrightarrow> length rrs = length irs \<Longrightarrow>
       isSelfCorrectionEnabled env \<Longrightarrow>
       Q (Inl e)
         (draftCalls env hist prompt irs rrs
          @ [(synthesizerRequest env hist (synthesizerContent prompt rrs), Inr f),
             (critiqueRequest prompt f, Inl e)]) []"
  and Perfect:
    "\<And>irs rrs f c. length irs = numAgents (generationDepth env) \<Longrightarrow> length rrs = length irs \<Longrightarrow>
       isSelfCorrectionEnabled env \<Longrightarrow> isPerfect c \<Longrightarrow>
       Q (Inr (responseText f))
         (draftCalls env hist prompt irs rrs
          @ [(synthesizerRequest env hist (synthesizerContent prompt rrs), Inr f),
             (critiqueRequest prompt f, Inr c)])
         [modelMessage f srcs (detailsOf irs rrs)]"
  and CorrectionFailed:
    "\<And>irs rrs f c e. length irs = numAgents (generationDepth env) \<Longrightarrow> length rrs = length irs \<Longrightarrow>
       isSelfCorrectionEnabled env \<Longrightarrow> \<not> isPerfect c \<Longrightarrow>
       Q (Inl e)
         (draftCalls env hist prompt irs rrs
          @ [(synthesizerRequest env hist (synthesizerContent prompt rrs), Inr f),
             (critiqueRequest prompt f, Inr c),
             (synthesizerRequest env hist
                (secondSynthesizerContent (synthesizerContent prompt rrs) c), Inl e)]) []"
  and Corrected:
    "\<And>irs rrs f c g. length irs = numAgents (generationDepth env) \<Longrightarrow> length rrs = length irs \<Longrightarrow>
       isSelfCorrectionEnabled env \<Longrightarrow> \<not> isPerfect c \<Longrightarrow>
       Q (Inr (responseText g))
         (draftCalls env hist prompt irs rrs
          @ [(synthesizerRequest env hist (synthesizerContent prompt rrs), Inr f),
             (critiqueRequest prompt f, Inr c),
             (synthesizerRequest env hist
                (secondSynthesizerContent (synthesizerContent prompt rrs) c), Inr g)])
         [modelMessage g srcs (detailsOf irs rrs)]"
  shows "effect cid (draftStages w env cid hist prompt srcs ti) Q"
  unfolding draftStages_def Let_def
proof (rule effect_fanout [OF effect_runTask [OF effect_generateAll]], goal_cases)
  case (1 outs e)
  then show ?case by (simp add: InitialFailed)
next
  case (2 irs)
  then have len: "length irs = numAgents (generationDepth env)" by simp
  show ?case
  proof (rule effect_fanout [OF effect_runTask [OF effect_generateAll]], goal_cases)
    case (1 outs e)
    with len show ?case by (simp add: RefinementFailed)
  next
    case (2 rrs)
    then have len2: "length rrs = length irs" by simp
    note sc = len len2
    have dc: "zip (initialRequests env hist prompt) (map Inr irs)
                @ zip (refinementRequests env hist prompt irs) (map Inr rrs) @ rest
              = draftCalls env hist prompt irs rrs @ rest" for rest
      by (simp add: draftCalls_def)
    show ?case
      unfolding dc
    proof (rule effect_single [OF effect_runTask [OF effect_generateContent]], goal_cases)
      case (1 e)
      show ?case by (rule SynthesisFailed [OF sc])
    next
      case (2 f)
      show ?case
        apply (rule effect_weaken)
         apply (rule effect_bnd [OF effect_selfCorrection effect_finish])
        using Uncritiqued [OF sc] CritiqueFailed [OF sc] Perfect [OF sc]
          CorrectionFailed [OF sc] Corrected [OF sc]
        by auto
    qed
  qed
qed

lemma effect_balancedOrDeep:
  assumes SearchFailed:
    "\<And>e. researchMode env \<noteq> ResearchOffline \<Longrightarrow> Q (Inl e) [(searchRequest env fic q, Inl e)] []"
  and Drafts:
    "\<And>sp ctx srcs ti. searched env fic q sp ctx srcs \<Longrightarrow>
       effect cid (draftStages w env cid hist (promptWithContext fic ctx fileParts) srcs ti)
         (\<lambda>r new ms. Q r (sp @ new) ms)"
  shows "effect cid (balancedOrDeepGeneration w env cid fic fileParts hist q) Q"
proof -
  have rest: "effect cid
      (case x of (webContext, srcs, taskIndex) \<Rightarrow>
         draftStages w env cid hist (promptWithContext fic webContext fileParts) srcs taskIndex)
      (\<lambda>r new ms. Q r (n @ new) ms)"
    if "m = [] \<and>
        ((researchMode env = ResearchOffline \<and> n = [] \<and> Inr x = Inr ([], [], 1))
         \<or> (researchMode env \<noteq> ResearchOffline \<and>
              ((\<exists>e. n = [(searchRequest env fic q, Inl e)] \<and> Inr x = Inl e)
               \<or> (\<exists>y. n = [(searchRequest env fic q, Inr y)]
                       \<and> Inr x = Inr (webContextOf y, groundingSources y [], 2)))))"
    for x :: "string \<times> Source list \<times> nat" and n m
  proof -
    obtain ctx srcs ti where x: "x = (ctx, srcs, ti)" by (cases x)
    from that have "searched env fic q n ctx srcs"
      unfolding searched_def x by auto
    from Drafts [OF this] show ?thesis by (simp add: x)
  qed
  have search: "effect cid
      (bnd (searchStage w env fic q)
         (\<lambda>(webContext, srcs, taskIndex).
            draftStages w env cid hist (promptWithContext fic webContext fileParts) srcs taskIndex))
      Q"
    apply (rule effect_weaken)
     apply (rule effect_bnd [OF effect_searchStage])
     apply (erule rest)
    using SearchFailed by auto
  show ?thesis
    unfolding balancedOrDeepGeneration_def
    apply (rule effect_weaken)
     apply (rule effect_bnd [OF effect_runTask [OF effect_ret] search])
    by auto
qed

lemma effect_after_status:
  assumes "effect cid p Q"
  shows "effect cid (\<lambda>s. p (setTaskStatus i st s)) Q"
proof (rule effectI)
  fix s
  from assms obtain new ms tasks where
    "snd (p (setTaskStatus i st s)) =
       (appendMessages cid ms (setTaskStatus i st s))\<lparr>loadingTasks := tasks,
          calls := calls (setTaskStatus i st s) @ new\<rparr>"
    "Q (fst (p (setTaskStatus i st s))) new ms"
    unfolding effect_def by blast
  then show "\<exists>new ms tasks.
      snd (p (setTaskStatus i st s)) = (appendMessages cid ms s)\<lparr>loadingTasks := tasks, calls := calls s @ new\<rparr>
      \<and> Q (fst (p (setTaskStatus i st s))) new ms"
    by (intro exI [of _ new] exI [of _ ms] exI [of _ tasks]) (simp add: setTaskStatus_def)
qed

lemma effect_fastGeneration:
  assumes Failed: "\<And>e. Q (Inl e) [(fastRequest env fic fileParts hist, Inl e)] []"
    and Answered: "\<And>x. Q (Inr (responseText x)) [(fastRequest env fic fileParts hist, Inr x)] [fastMessage x]"
  shows "effect cid (fastGeneration w env cid fic fileParts hist) Q"
proof -
  have "effect cid
      (bnd (generateContent w (fastRequest env fic fileParts hist))
         (\<lambda>finalResponse s2.
            (Inr (responseText finalResponse),
             updateConversationMessages cid (\<lambda>current. current @ [fastMessage finalResponse])
               (setTaskStatus 0 Completed s2))))
      Q"
    apply (rule effect_single [OF effect_generateContent])
     apply (rule Failed)
    apply (rule effect_weaken [OF effect_append_message])
    using Answered by simp
  from effect_after_status [OF this, of 0 Active] show ?thesis
    by (simp add: fastGeneration_def [abs_def])
qed

section \<open>The run as a whole\<close>

lemma generateAndStoreMemory_shape:
  "\<exists>e mem. generateAndStoreMemory w u t s = s\<lparr>longTermMemories := mem, calls := calls s @ e\<rparr>
     \<and> list_all isEnrichment e"
proof (cases "ai s")
  case False
  then show ?thesis
    by (intro exI [of _ "[]"] exI [of _ "longTermMemories s"]) (simp add: generateAndStoreMemory_def)
next
  case True
  let ?req = "\<lparr>model = Gemini25Flash,
      contents = Plain (''User Query: '' @ [CHR 0x22] @ u @ [CHR 0x22] @ nl @ nl
                             @ ''AI Response: '' @ [CHR 0x22] @ t @ [CHR 0x22]),
      systemInstruction = Some SUMMARIZER_SYSTEM_INSTRUCTION,
      temperature = Some (1 / 5), tools = None, responseSchema = None\<rparr>"
  let ?res = "gateway w (length (calls s)) ?req"
  show ?thesis
  proof (cases ?res)
    case (Inl e)
    with True show ?thesis
      by (intro exI [of _ "[(?req, ?res)]"] exI [of _ "longTermMemories s"])
         (simp add: generateAndStoreMemory_def generateContent_def Let_def isEnrichment_def)
  next
    case (Inr x)
    with True show ?thesis
      by (intro exI [of _ "[(?req, ?res)]"] exI [of _ "admitMemory (responseText x) (longTermMemories s)"])
         (simp add: generateAndStoreMemory_def generateContent_def Let_def isEnrichment_def)
  qed
qed

lemma generateProactiveSuggestions_shape:
  "\<exists>e sug. generateProactiveSuggestions w u t s = s\<lparr>proactiveSuggestions := sug, calls := calls s @ e\<rparr>
     \<and> list_all isEnrichment e"
proof (cases "ai s")
  case False
  then show ?thesis
    by (intro exI [of _ "[]"] exI [of _ "proactiveSuggestions s"]) (simp add: generateProactiveSuggestions_def)
next
  case True
  let ?req = "\<lparr>model = Gemini25Flash,
      contents = Plain (''--- User Query ---'' @ nl @ u @ nl @ nl @ ''--- AI Response ---'' @ nl @ t),
      systemInstruction = Some PROACTIVE_ASSISTANT_SYSTEM_INSTRUCTION,
      temperature = None, tools = None, responseSchema = Some StringArraySchema\<rparr>"
  let ?res = "gateway w (length (calls s)) ?req"
  have unfold: "generateProactiveSuggestions w u t s =
      (case ?res of
         Inl error \<Rightarrow> s\<lparr>calls := calls s @ [(?req, ?res)]\<rparr>
       | Inr response \<Rightarrow>
           (case parseSuggestions w (responseText response) of
              Inl error \<Rightarrow> s\<lparr>calls := calls s @ [(?req, ?res)]\<rparr>
            | Inr None \<Rightarrow> s\<lparr>calls := calls s @ [(?req, ?res)]\<rparr>
            | Inr (Some suggestions) \<Rightarrow>
                if length suggestions > 0
                then s\<lparr>calls := calls s @ [(?req, ?res)], proactiveSuggestions := take 3 suggestions\<rparr>
                else s\<lparr>calls := calls s @ [(?req, ?res)]\<rparr>))"
    using True
    by (simp add: generateProactiveSuggestions_def generateContent_def Let_def
          split: sum.splits option.splits)
  have same: "s\<lparr>calls := calls s @ [(?req, ?res)]\<rparr>
      = s\<lparr>proactiveSuggestions := proactiveSuggestions s, calls := calls s @ [(?req, ?res)]\<rparr>"
    by simp
  have "\<exists>sug. generateProactiveSuggestions w u t s
          = s\<lparr>proactiveSuggestions := sug, calls := calls s @ [(?req, ?res)]\<rparr>"
  proof (cases ?res)
    case (Inl e)
    then show ?thesis
      by (intro exI [of _ "proactiveSuggestions s"]) (simp add: unfold)
  next
    case (Inr x)
    show ?thesis
    proof (cases "parseSuggestions w (responseText x)")
      case (Inl e)
      with Inr show ?thesis
        by (intro exI [of _ "proactiveSuggestions s"]) (simp add: unfold)
    next
      case parsed: (Inr v)
      show ?thesis
      proof (cases v)
        case None
        with Inr parsed show ?thesis
          by (intro exI [of _ "proactiveSuggestions s"]) (simp add: unfold)
      next
        case (Some xs)
        show ?thesis
        proof (cases "length xs > 0")
          case True
          with Inr parsed Some show ?thesis
            by (intro exI [of _ "take 3 xs"]) (simp add: unfold)
        next
          case False
          with Inr parsed Some show ?thesis
            by (intro exI [of _ "proactiveSuggestions s"]) (simp add: unfold)
        qed
      qed
    qed
  qed
  then obtain sug where "generateProactiveSuggestions w u t s
          = s\<lparr>proactiveSuggestions := sug, calls := calls s @ [(?req, ?res)]\<rparr>" ..
  then show ?thesis
    by (intro exI [of _ "[(?req, ?res)]"] exI [of _ sug]) (simp add: isEnrichment_def)
qed

lemma finallyBlock_shape:
  "\<exists>enrich mem sug.
      finallyBlock w env u t s =
        s\<lparr>isLoading := False, longTermMemories := mem, proactiveSuggestions := sug,
          calls := calls s @ enrich\<rparr>
      \<and> list_all isEnrichment enrich
      \<and> (t = [] \<longrightarrow> enrich = [] \<and> mem = longTermMemories s \<and> sug = proactiveSuggestions s)"
proof (cases "t = []")
  case True
  then show ?thesis
    by (intro exI [of _ "[]"] exI [of _ "longTermMemories s"] exI [of _ "proactiveSuggestions s"])
       (simp add: finallyBlock_def)
next
  case False
  let ?s1 = "s\<lparr>isLoading := False\<rparr>"
  let ?s2 = "if isLongTermMemoryEnabled env then generateAndStoreMemory w u t ?s1 else ?s1"
  obtain e1 mem where s2: "?s2 = ?s1\<lparr>longTermMemories := mem, calls := calls ?s1 @ e1\<rparr>"
    and e1: "list_all isEnrichment e1"
  proof (cases "isLongTermMemoryEnabled env")
    case True
    from generateAndStoreMemory_shape [of w u t ?s1] obtain e mem where
      "generateAndStoreMemory w u t ?s1 = ?s1\<lparr>longTermMemories := mem, calls := calls ?s1 @ e\<rparr>"
      "list_all isEnrichment e" by blast
    with True that [of e mem] show ?thesis by simp
  next
    case False
    with that [of "[]" "longTermMemories s"] show ?thesis by simp
  qed
  obtain e2 sug where s3: "generateProactiveSuggestions w u t ?s2
        = ?s2\<lparr>proactiveSuggestions := sug, calls := calls ?s2 @ e2\<rparr>"
    and e2: "list_all isEnrichment e2"
    using generateProactiveSuggestions_shape [of w u t ?s2] by blast
  have "finallyBlock w env u t s = generateProactiveSuggestions w u t ?s2"
    using False by (simp add: finallyBlock_def)
  also have "\<dots> = s\<lparr>isLoading := False, longTermMemories := mem, proactiveSuggestions := sug,
          calls := calls s @ e1 @ e2\<rparr>"
    unfolding s3 unfolding s2 by simp
  finally show ?thesis
    using e1 e2 False
    by (intro exI [of _ "e1 @ e2"] exI [of _ mem] exI [of _ sug]) simp
qed

lemma executeGeneration_shape:
  assumes ai: "ai s" and cid: "currentConversationId s = Some cid"
    and eff: "effect cid (tryBlock w s cid u fp h q) Q"
  shows "\<exists>r new ms tasks enrich mem sug.
      Q r new ms
      \<and> executeGeneration w u fp h q s =
          (appendMessages cid
             (ms @ (case r of Inl e \<Rightarrow> [errorMessage (friendlyMessage e)] | Inr t \<Rightarrow> [])) s)
          \<lparr>isLoading := False, loadingTasks := tasks, longTermMemories := mem,
           proactiveSuggestions := sug, calls := calls s @ new @ enrich\<rparr>
      \<and> list_all isEnrichment enrich
      \<and> ((\<exists>e. r = Inl e) \<longrightarrow>
            enrich = [] \<and> mem = longTermMemories s \<and> sug = proactiveSuggestions s)"
proof -
  let ?s1 = "s\<lparr>loadingTasks := buildLoadingTasks (researchMode s) (generationDepth s)
                                        (isSelfCorrectionEnabled s)\<rparr>"
  obtain r s2 where t: "tryBlock w s cid u fp h q ?s1 = (r, s2)"
    by (cases "tryBlock w s cid u fp h q ?s1")
  from eff [unfolded effect_def, rule_format, of ?s1] t obtain new ms tasks where
    st: "s2 = (appendMessages cid ms s)\<lparr>loadingTasks := tasks, calls := calls s @ new\<rparr>"
    and q: "Q r new ms"
    by auto
  let ?errs = "case r of Inl e \<Rightarrow> [errorMessage (friendlyMessage e)] | Inr t \<Rightarrow> []"
  let ?txt = "case r of Inl e \<Rightarrow> [] | Inr t \<Rightarrow> t"
  let ?s3 = "(appendMessages cid (ms @ ?errs) s)\<lparr>loadingTasks := tasks, calls := calls s @ new\<rparr>"
  have "executeGeneration w u fp h q s =
          (case r of Inr txt \<Rightarrow> finallyBlock w s u txt s2
                   | Inl e \<Rightarrow> finallyBlock w s u [] (catchBlock cid e s2))"
    using ai cid t by (simp add: executeGeneration_def Let_def split: sum.splits)
  also have "\<dots> = finallyBlock w s u ?txt ?s3"
  proof (cases r)
    case (Inl e)
    have "catchBlock cid e s2 = appendMessages cid [errorMessage (friendlyMessage e)] s2"
      by (simp add: catchBlock_def appendMessages_def)
    with Inl show ?thesis by (simp add: st)
  next
    case (Inr answer)
    then show ?thesis by (simp add: st)
  qed
  finally have ex: "executeGeneration w u fp h q s = finallyBlock w s u ?txt ?s3" .
  from finallyBlock_shape [of w s u ?txt ?s3] obtain enrich mem sug where
    fin: "finallyBlock w s u ?txt ?s3 =
        ?s3\<lparr>isLoading := False, longTermMemories := mem, proactiveSuggestions := sug,
            calls := calls ?s3 @ enrich\<rparr>"
    and en: "list_all isEnrichment enrich"
    and emp: "?txt = [] \<longrightarrow> enrich = [] \<and> mem = longTermMemories ?s3 \<and> sug = proactiveSuggestions ?s3"
    by blast
  have keep: "longTermMemories ?s3 = longTermMemories s" "proactiveSuggestions ?s3 = proactiveSuggestions s"
    by (simp_all add: appendMessages_def updateConversationMessages_def)
  have final: "executeGeneration w u fp h q s =
      (appendMessages cid (ms @ ?errs) s)
          \<lparr>isLoading := False, loadingTasks := tasks, longTermMemories := mem,
           proactiveSuggestions := sug, calls := calls s @ new @ enrich\<rparr>"
    unfolding ex fin by simp
  have quiet: "(\<exists>e. r = Inl e) \<longrightarrow>
            enrich = [] \<and> mem = longTermMemories s \<and> sug = proactiveSuggestions s"
    using emp keep by auto
  from q final en quiet show ?thesis by blast
qed

lemma effect_tryBlock:
  assumes "generationDepth env = DepthFast \<Longrightarrow>
             effect cid (fastGeneration w env cid (contextPrefix env @ u) fp h) Q"
    and "generationDepth env \<noteq> DepthFast \<Longrightarrow>
             effect cid (balancedOrDeepGeneration w env cid (contextPrefix env @ u) fp h q) Q"
  shows "effect cid (tryBlock w env cid u fp h q) Q"
  using assms by (simp add: tryBlock_def Let_def)

lemma instr_simps [simp]:
  "systemInstruction (searchRequest env fic q) = None"
  "systemInstruction (fastRequest env fic fp h) = None"
  "systemInstruction (synthesizerRequest env h c) = Some SYNTHESIZER_SYSTEM_INSTRUCTION"
  "systemInstruction (critiqueRequest p f) = Some CRITIC_SYSTEM_INSTRUCTION"
  "systemInstruction (searchRefinerRequest u) = Some SEARCH_REFINER_SYSTEM_INSTRUCTION"
  by (simp_all add: searchRequest_def synthesizerRequest_def critiqueRequest_def fastRequest_def
        searchRefinerRequest_def Let_def)

lemma initialRequests_instr:
  "r \<in> set (initialRequests env h p) \<Longrightarrow> systemInstruction r = Some INITIAL_SYSTEM_INSTRUCTION"
  by (auto simp: initialRequests_def)

lemma refinementRequests_instr:
  "r \<in> set (refinementRequests env h p irs) \<Longrightarrow>
   systemInstruction r = Some REFINEMENT_SYSTEM_INSTRUCTION"
  by (auto simp: refinementRequests_def)

lemma list_all_zip_fst:
  "(\<And>r. r \<in> set reqs \<Longrightarrow> P r) \<Longrightarrow> list_all (\<lambda>c. P (fst c)) (zip reqs outs)"
  by (auto simp: list_all_iff dest: set_zip_leftD)

lemma list_all_zip_snd:
  "(\<And>r. r \<in> set outs \<Longrightarrow> P r) \<Longrightarrow> list_all (\<lambda>c. P (snd c)) (zip reqs outs)"
  by (auto simp: list_all_iff dest: set_zip_rightD)

lemma generation_initial [simp]:
  "list_all (\<lambda>c. \<not> isEnrichment c) (zip (initialRequests env h p) outs)"
  unfolding isEnrichment_def
  by (rule list_all_zip_fst) (simp add: initialRequests_instr)

lemma generation_refinement [simp]:
  "list_all (\<lambda>c. \<not> isEnrichment c) (zip (refinementRequests env h p irs) outs)"
  unfolding isEnrichment_def
  by (rule list_all_zip_fst) (simp add: refinementRequests_instr)

lemma generation_single [simp]:
  "\<not> isEnrichment (searchRequest env fic q, res)"
  "\<not> isEnrichment (fastRequest env fic fp h, res)"
  "\<not> isEnrichment (synthesizerRequest env h c, res)"
  "\<not> isEnrichment (critiqueRequest p f, res)"
  "\<not> isEnrichment (searchRefinerRequest u, res)"
  by (simp_all add: isEnrichment_def)

lemma resolved_zip [simp]: "list_all (\<lambda>c. \<not> isl (snd c)) (zip reqs (map Inr xs))"
  by (rule list_all_zip_snd) auto

lemma generation_drafts [simp]:
  "list_all (\<lambda>c. \<not> isEnrichment c) (draftCalls env h p irs rrs)"
  "list_all (\<lambda>c. \<not> isl (snd c)) (draftCalls env h p irs rrs)"
  by (simp_all add: draftCalls_def)

lemma rejected_in_zip:
  assumes "promiseAll outs = Inl e" and "length outs = length reqs"
  shows "\<exists>req. (req, Inl e) \<in> set (zip reqs outs)"
proof -
  from assms(1) have "Inl e \<in> set outs" by (rule promiseAll_Inl)
  then obtain i where "i < length outs" "outs ! i = Inl e" by (auto simp: in_set_conv_nth)
  with assms(2) have "(reqs ! i, Inl e) \<in> set (zip reqs outs)"
    by (auto simp: set_zip)
  then show ?thesis ..
qed


lemma conversations_appended:
  "conversations ((appendMessages cid ms s)\<lparr>isLoading := a, loadingTasks := b, longTermMemories := c,
       proactiveSuggestions := d, calls := e\<rparr>)
   = map (\<lambda>c. if convId c = cid then c\<lparr>messages := messages c @ ms\<rparr> else c) (conversations s)"
  by (simp add: appendMessages_def updateConversationMessages_def)

lemmas eval_defs = Let_def bnd_def ret_def runTask_def generateContent_def generateAll_def
  setTaskStatus_def updateTaskStatus_def updateConversationMessages_def
  executeGeneration_def tryBlock_def fastGeneration_def balancedOrDeepGeneration_def
  draftStages_def searchStage_def selfCorrection_def finallyBlock_def catchBlock_def
  generateAndStoreMemory_def generateProactiveSuggestions_def admitMemory_def storeMemory_def
  MAX_MEMORIES_def isPerfect_def trim_def isWhiteSpace_def toUpperCase_def toUpperChar_def
  toLowerCase_def toLowerChar_def lowerLetters_def upperLetters_def
  initialRequests_def refinementRequests_def synthesizerContent_def synthesizerRequest_def
  critiqueRequest_def secondSynthesizerContent_def searchRequest_def fastRequest_def
  fastMessage_def modelMessage_def detailsOf_def errorMessage_def friendlyMessage_def
  promptWithContext_def contextPrefix_def codeInterpreterTool_def numAgents_def nthOpt_def
  webContextOf_def groundingSources_def parseToolOutputs_def buildLoadingTasks_def
  currentTaskTemplate_def task_defs startState_def newCalls_def callsWith_def
  nl_def digit_def toString.simps eval_nat_numeral isEnrichment_def
  FRIENDLY_DEADLINE_def FRIENDLY_API_KEY_def FRIENDLY_SAFETY_def FRIENDLY_GENERIC_def

section \<open>Failure handling\<close>



section \<open>Fan-out and refinement\<close>

lemma callsWith_simps [simp]:
  "callsWith i [] = []"
  "callsWith i (xs @ ys) = callsWith i xs @ callsWith i ys"
  "callsWith i (c # xs) = (if systemInstruction (fst c) = Some i then c # callsWith i xs else callsWith i xs)"
  by (simp_all add: callsWith_def)

lemma callsWith_zip:
  assumes "\<And>r. r \<in> set reqs \<Longrightarrow> systemInstruction r = Some j"
  shows "callsWith i (zip reqs outs) = (if i = j then zip reqs outs else [])"
  using assms by (auto simp: callsWith_def filter_empty_conv filter_id_conv dest: set_zip_leftD)

lemma callsWith_initial [simp]:
  "callsWith i (zip (initialRequests env h p) outs)
     = (if i = INITIAL_SYSTEM_INSTRUCTION then zip (initialRequests env h p) outs else [])"
  by (rule callsWith_zip) (rule initialRequests_instr)

lemma callsWith_refinement [simp]:
  "callsWith i (zip (refinementRequests env h p rs) outs)
     = (if i = REFINEMENT_SYSTEM_INSTRUCTION then zip (refinementRequests env h p rs) outs else [])"
  by (rule callsWith_zip) (rule refinementRequests_instr)

lemma callsWith_drafts [simp]:
  "callsWith i (draftCalls env h p irs rrs)
     = (if i = INITIAL_SYSTEM_INSTRUCTION then zip (initialRequests env h p) (map Inr irs)
        else if i = REFINEMENT_SYSTEM_INSTRUCTION
          then zip (refinementRequests env h p irs) (map Inr rrs) else [])"
  by (simp add: draftCalls_def)

lemma callsWith_searched [simp]: "searched env fic q sp ctx srcs \<Longrightarrow> callsWith i sp = []"
  by (auto simp: searched_def)

lemma searchRejected_simps [simp]:
  "searchRejected [] = False"
  "searchRejected (xs @ ys) = (searchRejected xs \<or> searchRejected ys)"
  "searchRejected (c # xs) = ((systemInstruction (fst c) = None \<and> isl (snd c)) \<or> searchRejected xs)"
  by (simp_all add: searchRejected_def)

lemma searchRejected_zip:
  assumes "\<And>r. r \<in> set reqs \<Longrightarrow> systemInstruction r = Some j"
  shows "\<not> searchRejected (zip reqs outs)"
  using assms by (auto simp: searchRejected_def list_ex_iff dest: set_zip_leftD)

lemma searchRejected_initial [simp]: "\<not> searchRejected (zip (initialRequests env h p) outs)"
  by (rule searchRejected_zip) (rule initialRequests_instr)

lemma searchRejected_refinement [simp]: "\<not> searchRejected (zip (refinementRequests env h p rs) outs)"
  by (rule searchRejected_zip) (rule refinementRequests_instr)

lemma searchRejected_drafts [simp]: "\<not> searchRejected (draftCalls env h p irs rrs)"
  by (simp add: draftCalls_def)

lemma searchRejected_searched [simp]: "searched env fic q sp ctx srcs \<Longrightarrow> \<not> searchRejected sp"
  by (auto simp: searched_def)

lemma responsesOf_zip [simp]:
  "length reqs = length xs \<Longrightarrow> responsesOf (zip reqs (map Inr xs)) = xs"
  by (simp add: responsesOf_def zip_map2 map_idI comp_def case_prod_unfold)

lemma rejected_not_all:
  assumes "promiseAll outs = Inl e" "length outs = length reqs"
  shows "\<not> list_all (\<lambda>c. \<not> isl (snd c)) (zip reqs outs)"
proof -
  from assms(1) have "Inl e \<in> set outs" by (rule promiseAll_Inl)
  then obtain i where "i < length outs" "outs ! i = Inl e" by (auto simp: in_set_conv_nth)
  with assms(2) have "(reqs ! i, Inl e) \<in> set (zip reqs outs)" by (auto simp: set_zip)
  then show ?thesis by (force simp: list_all_iff)
qed

lemma numAgents_pos [simp]: "0 < numAgents d" "numAgents d \<noteq> 0"
  by (simp_all add: numAgents_def)

lemma initialRequests_ne [simp]: "initialRequests env h p \<noteq> []"
  by (simp add: initialRequests_def numAgents_def)

lemma length_positive [simp]: "length xs = numAgents d \<Longrightarrow> xs \<noteq> []"
  by (auto simp: numAgents_def split: if_splits)

lemma fansOut_drafts:
  assumes sp: "searched env fic q sp ctx srcs"
  shows "effect cid (draftStages w env cid h (promptWithContext fic ctx fp) srcs ti)
           (\<lambda>r new ms. fansOut env h r (sp @ new) ms)"
proof (rule effect_draftStages, goal_cases)
  case (1 outs e)
  then show ?case
    using sp rejected_not_all [of outs e "initialRequests env h (promptWithContext fic ctx fp)"]
    by (auto simp add: fansOut_def)
next
  case (2 irs outs e)
  then show ?case
    using sp by (auto simp add: fansOut_def intro!: exI [of _ "promptWithContext fic ctx fp"])
next
  case (3 irs rrs e)
  then show ?case
    using sp by (auto simp add: fansOut_def intro!: exI [of _ "promptWithContext fic ctx fp"])
next
  case (4 irs rrs f)
  then show ?case
    using sp by (auto simp add: fansOut_def modelMessage_def detailsOf_def
        intro!: exI [of _ "promptWithContext fic ctx fp"])
next
  case (5 irs rrs f e)
  then show ?case
    using sp by (auto simp add: fansOut_def intro!: exI [of _ "promptWithContext fic ctx fp"])
next
  case (6 irs rrs f c)
  then show ?case
    using sp by (auto simp add: fansOut_def modelMessage_def detailsOf_def
        intro!: exI [of _ "promptWithContext fic ctx fp"])
next
  case (7 irs rrs f c e)
  then show ?case
    using sp by (auto simp add: fansOut_def intro!: exI [of _ "promptWithContext fic ctx fp"])
next
  case (8 irs rrs f c g)
  then show ?case
    using sp by (auto simp add: fansOut_def modelMessage_def detailsOf_def
        intro!: exI [of _ "promptWithContext fic ctx fp"])
qed

lemma fansOut_balancedOrDeep:
  "effect cid (balancedOrDeepGeneration w env cid fic fp h q) (fansOut env h)"
proof (rule effect_balancedOrDeep)
  fix e
  show "fansOut env h (Inl e) [(searchRequest env fic q, Inl e)] []"
    by (simp add: fansOut_def)
next
  fix sp ctx srcs ti
  assume "searched env fic q sp ctx srcs"
  then show "effect cid (draftStages w env cid h (promptWithContext fic ctx fp) srcs ti)
         (\<lambda>r new ms. fansOut env h r (sp @ new) ms)"
    by (rule fansOut_drafts)
qed

lemma enrichment_callsWith:
  assumes "list_all isEnrichment e"
    and "i \<noteq> SUMMARIZER_SYSTEM_INSTRUCTION" "i \<noteq> PROACTIVE_ASSISTANT_SYSTEM_INSTRUCTION"
  shows "callsWith i e = []"
  using assms by (auto simp: callsWith_def isEnrichment_def list_all_iff filter_empty_conv)

lemma enrichment_not_search:
  assumes "list_all isEnrichment e"
  shows "\<not> searchRejected e"
  using assms by (auto simp: searchRejected_def isEnrichment_def list_all_iff list_ex_iff)

lemma tryBlock_slow:
  "generationDepth env \<noteq> DepthFast \<Longrightarrow>
   tryBlock w env cid u fp h q = balancedOrDeepGeneration w env cid (contextPrefix env @ u) fp h q"
  by (simp add: tryBlock_def)

text \<open>
  Claim C2, as stated, fails for a run whose web search is rejected: the run is aborted
  before the fan-out, so a balanced-depth run in web mode may issue no draft call at all.
\<close>

theorem C2_fan_out_counterexample:
  "generationDepth webBalancedState = DepthBalanced
   \<and> ai webBalancedState
   \<and> length (newCalls webBalancedState
        (executeGeneration rejectingWorld ''q'' [] [] None webBalancedState)) = 1
   \<and> callsWith INITIAL_SYSTEM_INSTRUCTION
        (newCalls webBalancedState
           (executeGeneration rejectingWorld ''q'' [] [] None webBalancedState)) = []"
  by (simp add: eval_defs rejectingWorld_def webBalancedState_def)

text \<open>
  Claim C2, amended. A balanced-depth run fans out to 2 agents and a deep-depth run to 4.
  A run of balanced or deep depth issues exactly that number \<open>N\<close> of initial-draft calls,
  unless its web search was rejected, and then it issues none. It issues \<open>N\<close> refinement
  calls if all the draft calls resolved and none otherwise (the calls of one fan-out are
  all issued, also when one of them is rejected); the refinement requests are made from
  the draft responses, one for each, in their order. The run appends one message, and this
  is the error message or carries \<open>generationDetails\<close> with the texts of the \<open>N\<close> drafts and of
  the \<open>N\<close> refinements.
\<close>

theorem C2_fan_out:
  assumes "ai s" and "currentConversationId s = Some cid" and "generationDepth s \<noteq> DepthFast"
  shows "numAgents DepthBalanced = 2 \<and> numAgents DepthDeep = 4
     \<and> length (callsWith INITIAL_SYSTEM_INSTRUCTION (newCalls s (executeGeneration w u fp h q s)))
         = (if searchRejected (newCalls s (executeGeneration w u fp h q s)) then 0
            else numAgents (generationDepth s))
     \<and> length (callsWith REFINEMENT_SYSTEM_INSTRUCTION
                  (newCalls s (executeGeneration w u fp h q s)))
         = (if callsWith INITIAL_SYSTEM_INSTRUCTION (newCalls s (executeGeneration w u fp h q s))
                 \<noteq> []
               \<and> list_all (\<lambda>c. \<not> isl (snd c))
                     (callsWith INITIAL_SYSTEM_INSTRUCTION
                        (newCalls s (executeGeneration w u fp h q s)))
            then numAgents (generationDepth s) else 0)
     \<and> (\<exists>prompt.
           map fst (callsWith REFINEMENT_SYSTEM_INSTRUCTION
                      (newCalls s (executeGeneration w u fp h q s)))
             = (if callsWith REFINEMENT_SYSTEM_INSTRUCTION
                     (newCalls s (executeGeneration w u fp h q s)) = [] then []
                else refinementRequests s h prompt
                       (responsesOf (callsWith INITIAL_SYSTEM_INSTRUCTION
                                       (newCalls s (executeGeneration w u fp h q s))))))
     \<and> (\<exists>m. conversations (executeGeneration w u fp h q s)
               = map (\<lambda>c. if convId c = cid then c\<lparr>messages := messages c @ [m]\<rparr> else c)
                   (conversations s)
             \<and> (isError m = Some True
                  \<or> generationDetails m
                       = Some \<lparr>initial = map responseText
                                  (responsesOf (callsWith INITIAL_SYSTEM_INSTRUCTION
                                     (newCalls s (executeGeneration w u fp h q s)))),
                               refined = map responseText
                                  (responsesOf (callsWith REFINEMENT_SYSTEM_INSTRUCTION
                                     (newCalls s (executeGeneration w u fp h q s))))\<rparr>
                    \<and> length (callsWith INITIAL_SYSTEM_INSTRUCTION
                                (newCalls s (executeGeneration w u fp h q s)))
                        = numAgents (generationDepth s)
                    \<and> length (callsWith REFINEMENT_SYSTEM_INSTRUCTION
                                (newCalls s (executeGeneration w u fp h q s)))
                        = numAgents (generationDepth s)))"
proof -
  let ?s' = "executeGeneration w u fp h q s"
  have eff: "effect cid (tryBlock w s cid u fp h q) (fansOut s h)"
    unfolding tryBlock_slow [OF assms(3)] by (rule fansOut_balancedOrDeep)
  from executeGeneration_shape [OF assms(1,2) eff]
  obtain r new ms tasks enrich mem sug where
    fo: "fansOut s h r new ms"
    and s': "?s' = (appendMessages cid
             (ms @ (case r of Inl e \<Rightarrow> [errorMessage (friendlyMessage e)] | Inr t \<Rightarrow> [])) s)
          \<lparr>isLoading := False, loadingTasks := tasks, longTermMemories := mem,
           proactiveSuggestions := sug, calls := calls s @ new @ enrich\<rparr>"
    and en: "list_all isEnrichment enrich"
    by blast
  have nc: "newCalls s ?s' = new @ enrich"
    unfolding s' by (simp add: newCalls_def)
  have ini: "callsWith INITIAL_SYSTEM_INSTRUCTION (newCalls s ?s')
              = callsWith INITIAL_SYSTEM_INSTRUCTION new"
    and ref: "callsWith REFINEMENT_SYSTEM_INSTRUCTION (newCalls s ?s')
              = callsWith REFINEMENT_SYSTEM_INSTRUCTION new"
    and sr: "searchRejected (newCalls s ?s') = searchRejected new"
    unfolding nc by (simp_all add: enrichment_callsWith [OF en] enrichment_not_search [OF en])
  have counts: "numAgents DepthBalanced = 2 \<and> numAgents DepthDeep = 4"
    by (simp add: numAgents_def)
  have msg: "\<exists>m. conversations ?s'
               = map (\<lambda>c. if convId c = cid then c\<lparr>messages := messages c @ [m]\<rparr> else c)
                   (conversations s)
             \<and> (isError m = Some True
                  \<or> generationDetails m
                       = Some \<lparr>initial = map responseText
                                  (responsesOf (callsWith INITIAL_SYSTEM_INSTRUCTION new)),
                               refined = map responseText
                                  (responsesOf (callsWith REFINEMENT_SYSTEM_INSTRUCTION new))\<rparr>
                    \<and> length (callsWith INITIAL_SYSTEM_INSTRUCTION new)
                        = numAgents (generationDepth s)
                    \<and> length (callsWith REFINEMENT_SYSTEM_INSTRUCTION new)
                        = numAgents (generationDepth s))"
  proof (cases r)
    case (Inl e)
    with fo have "ms = []" by (simp add: fansOut_def)
    with Inl show ?thesis
      unfolding s' conversations_appended
      by (intro exI [of _ "errorMessage (friendlyMessage e)"]) (simp add: errorMessage_def)
  next
    case (Inr t)
    with fo obtain m where "ms = [m]"
      "generationDetails m
         = Some \<lparr>initial = map responseText
                    (responsesOf (callsWith INITIAL_SYSTEM_INSTRUCTION new)),
                 refined = map responseText
                    (responsesOf (callsWith REFINEMENT_SYSTEM_INSTRUCTION new))\<rparr>"
      "length (callsWith INITIAL_SYSTEM_INSTRUCTION new) = numAgents (generationDepth s)"
      "length (callsWith REFINEMENT_SYSTEM_INSTRUCTION new) = numAgents (generationDepth s)"
      by (auto simp: fansOut_def)
    with Inr show ?thesis
      unfolding s' conversations_appended
      by (intro exI [of _ m]) simp
  qed
  from fo counts msg show ?thesis
    unfolding ini ref sr fansOut_def by blast
qed

theorem C2_fan_out_witness:
  "length (callsWith INITIAL_SYSTEM_INSTRUCTION
      (newCalls webState
         (executeGeneration (criticWorld ''PERFECT'') ''q'' [] [] (Some ''kyoto'') webState))) = 4
   \<and> length (callsWith REFINEMENT_SYSTEM_INSTRUCTION
      (newCalls webState
         (executeGeneration (criticWorld ''PERFECT'') ''q'' [] [] (Some ''kyoto'') webState))) = 4
   \<and> map generationDetails (messages (hd (conversations
         (executeGeneration (criticWorld ''PERFECT'') ''q'' [] [] (Some ''kyoto'') webState))))
       = [Some \<lparr>initial = [''draft'', ''draft'', ''draft'', ''draft''],
                refined = [''draft'', ''draft'', ''draft'', ''draft'']\<rparr>]
   \<and> length (callsWith INITIAL_SYSTEM_INSTRUCTION
      (newCalls balancedState
         (executeGeneration flakyWorld ''q'' [] [] None balancedState))) = 2
   \<and> length (callsWith REFINEMENT_SYSTEM_INSTRUCTION
      (newCalls balancedState
         (executeGeneration flakyWorld ''q'' [] [] None balancedState))) = 0"
proof -
  let ?d = "executeGeneration (criticWorld ''PERFECT'') ''q'' [] [] (Some ''kyoto'') webState"
  let ?f = "executeGeneration flakyWorld ''q'' [] [] None balancedState"
  have a: "ai webState" "currentConversationId webState = Some ''1''"
    "generationDepth webState \<noteq> DepthFast"
    by (simp_all add: webState_def startState_def)
  have b: "ai balancedState" "currentConversationId balancedState = Some ''1''"
    "generationDepth balancedState \<noteq> DepthFast"
    by (simp_all add: balancedState_def startState_def)
  have sd: "\<not> searchRejected (newCalls webState ?d)"
    by (simp add: eval_defs criticWorld_def webState_def plainResponse_def)
  have sf: "\<not> searchRejected (newCalls balancedState ?f)"
    by (simp add: eval_defs flakyWorld_def balancedState_def plainResponse_def)
  have rf: "\<not> list_all (\<lambda>c. \<not> isl (snd c))
                (callsWith INITIAL_SYSTEM_INSTRUCTION (newCalls balancedState ?f))"
    by (simp add: eval_defs flakyWorld_def balancedState_def plainResponse_def)
  have gd: "map generationDetails (messages (hd (conversations ?d)))
       = [Some \<lparr>initial = [''draft'', ''draft'', ''draft'', ''draft''],
                refined = [''draft'', ''draft'', ''draft'', ''draft'']\<rparr>]"
    by (simp add: eval_defs criticWorld_def webState_def plainResponse_def)
  have rd: "callsWith INITIAL_SYSTEM_INSTRUCTION (newCalls webState ?d) \<noteq> []
      \<and> list_all (\<lambda>c. \<not> isl (snd c))
                (callsWith INITIAL_SYSTEM_INSTRUCTION (newCalls webState ?d))"
    by (simp add: eval_defs criticWorld_def webState_def plainResponse_def)
  have nd: "numAgents (generationDepth webState) = 4"
    "numAgents (generationDepth balancedState) = 2"
    by (simp_all add: webState_def balancedState_def startState_def numAgents_def)
  from C2_fan_out [OF a, of "criticWorld ''PERFECT''" "''q''" "[]" "[]" "Some ''kyoto''"] sd rd nd
  have d: "length (callsWith INITIAL_SYSTEM_INSTRUCTION (newCalls webState ?d)) = 4"
    "length (callsWith REFINEMENT_SYSTEM_INSTRUCTION (newCalls webState ?d)) = 4"
    by auto
  from C2_fan_out [OF b, of flakyWorld "''q''" "[]" "[]" None] sf rf nd
  have f: "length (callsWith INITIAL_SYSTEM_INSTRUCTION (newCalls balancedState ?f)) = 2"
    "length (callsWith REFINEMENT_SYSTEM_INSTRUCTION (newCalls balancedState ?f)) = 0"
    by auto
  from d f gd show ?thesis by blast
qed

section \<open>Self-correction\<close>

lemma corrects_drafts:
  assumes sp: "searched env fic q sp ctx srcs"
  shows "effect cid (draftStages w env cid h (promptWithContext fic ctx fp) srcs ti)
           (\<lambda>r new ms. corrects env h r (sp @ new) ms)"
proof (rule effect_draftStages, goal_cases)
  case (1 outs e)
  then show ?case using sp by (simp add: corrects_def)
next
  case (2 irs outs e)
  then show ?case using sp by (simp add: corrects_def)
next
  case (3 irs rrs e)
  then show ?case using sp by (simp add: corrects_def)
next
  case (4 irs rrs f)
  then show ?case using sp by (simp add: corrects_def)
next
  case (5 irs rrs f e)
  then show ?case using sp by (simp add: corrects_def)
next
  case (6 irs rrs f c)
  then show ?case
    using sp by (auto simp add: corrects_def finalAnswer_def modelMessage_def)
next
  case (7 irs rrs f c e)
  then show ?case
    using sp by (auto simp add: corrects_def finalAnswer_def modelMessage_def)
next
  case (8 irs rrs f c g)
  then show ?case
    using sp by (auto simp add: corrects_def finalAnswer_def modelMessage_def)
qed

lemma corrects_tryBlock: "effect cid (tryBlock w env cid u fp h q) (corrects env h)"
proof (rule effect_tryBlock)
  show "effect cid (fastGeneration w env cid (contextPrefix env @ u) fp h) (corrects env h)"
    by (rule effect_fastGeneration) (simp_all add: corrects_def)
next
  show "effect cid (balancedOrDeepGeneration w env cid (contextPrefix env @ u) fp h q)
          (corrects env h)"
  proof (rule effect_balancedOrDeep)
    fix e
    show "corrects env h (Inl e) [(searchRequest env (contextPrefix env @ u) q, Inl e)] []"
      by (simp add: corrects_def)
  next
    fix sp ctx srcs ti
    assume "searched env (contextPrefix env @ u) q sp ctx srcs"
    then show "effect cid
        (draftStages w env cid h (promptWithContext (contextPrefix env @ u) ctx fp) srcs ti)
        (\<lambda>r new ms. corrects env h r (sp @ new) ms)"
      by (rule corrects_drafts)
  qed
qed

text \<open>
  Claim C1. Let a run of \<open>executeGeneration\<close> have issued a critique call that resolved
  with the response \<open>critique\<close> (so the depth is balanced or deep and self-correction is
  on). Then this is the only critique call of the run. If the text of \<open>critique\<close>, trimmed
  and in upper case, is \<open>PERFECT\<close>, the run made one synthesis call only and appended
  one message, which is no error message and has the text of that first synthesis. For any
  other text the run made exactly two synthesis calls, the second with the critique
  appended to its content, and if that call resolved the appended message has its text.
\<close>

theorem C1_self_correction:
  assumes "ai s" and "currentConversationId s = Some cid"
    and "(creq, Inr critique)
           \<in> set (callsWith CRITIC_SYSTEM_INSTRUCTION (newCalls s (executeGeneration w u fp h q s)))"
  shows "callsWith CRITIC_SYSTEM_INSTRUCTION (newCalls s (executeGeneration w u fp h q s))
           = [(creq, Inr critique)]
     \<and> (\<exists>req0 first.
          (isPerfect critique \<longrightarrow>
             callsWith SYNTHESIZER_SYSTEM_INSTRUCTION (newCalls s (executeGeneration w u fp h q s))
               = [(req0, Inr first)]
             \<and> (\<exists>m. role m = Model \<and> isError m = None
                   \<and> parts m = [Text (responseText first)]
                   \<and> conversations (executeGeneration w u fp h q s)
                       = map (\<lambda>c. if convId c = cid
                                  then c\<lparr>messages := messages c @ [m]\<rparr> else c)
                           (conversations s)))
          \<and> (\<not> isPerfect critique \<longrightarrow>
               (\<exists>content res1.
                  callsWith SYNTHESIZER_SYSTEM_INSTRUCTION
                      (newCalls s (executeGeneration w u fp h q s))
                    = [(req0, Inr first),
                       (synthesizerRequest s h (secondSynthesizerContent content critique), res1)]
                  \<and> (\<forall>improved. res1 = Inr improved \<longrightarrow>
                        (\<exists>m. role m = Model \<and> isError m = None
                           \<and> parts m = [Text (responseText improved)]
                           \<and> conversations (executeGeneration w u fp h q s)
                               = map (\<lambda>c. if convId c = cid
                                          then c\<lparr>messages := messages c @ [m]\<rparr> else c)
                                   (conversations s))))))"
proof -
  let ?s' = "executeGeneration w u fp h q s"
  from executeGeneration_shape [OF assms(1,2) corrects_tryBlock]
  obtain r new ms tasks enrich mem sug where
    co: "corrects s h r new ms"
    and s': "?s' = (appendMessages cid
             (ms @ (case r of Inl e \<Rightarrow> [errorMessage (friendlyMessage e)] | Inr t \<Rightarrow> [])) s)
          \<lparr>isLoading := False, loadingTasks := tasks, longTermMemories := mem,
           proactiveSuggestions := sug, calls := calls s @ new @ enrich\<rparr>"
    and en: "list_all isEnrichment enrich"
    by blast
  have nc: "newCalls s ?s' = new @ enrich"
    unfolding s' by (simp add: newCalls_def)
  have cr: "callsWith CRITIC_SYSTEM_INSTRUCTION (newCalls s ?s')
              = callsWith CRITIC_SYSTEM_INSTRUCTION new"
    and sy: "callsWith SYNTHESIZER_SYSTEM_INSTRUCTION (newCalls s ?s')
              = callsWith SYNTHESIZER_SYSTEM_INSTRUCTION new"
    unfolding nc by (simp_all add: enrichment_callsWith [OF en])
  have conv: "conversations ?s'
      = map (\<lambda>c. if convId c = cid then c\<lparr>messages := messages c @ [m]\<rparr> else c)
          (conversations s)"
    if "finalAnswer x r ms" "ms = [m]" for x m
    using that unfolding s' conversations_appended by (simp add: finalAnswer_def)
  from assms(3) have mem: "(creq, Inr critique) \<in> set (callsWith CRITIC_SYSTEM_INSTRUCTION new)"
    by (simp add: cr)
  with co have one: "callsWith CRITIC_SYSTEM_INSTRUCTION new = [(creq, Inr critique)]"
    and ex: "\<exists>req0 first.
             (isPerfect critique \<longrightarrow>
                callsWith SYNTHESIZER_SYSTEM_INSTRUCTION new = [(req0, Inr first)]
                \<and> finalAnswer first r ms)
             \<and> (\<not> isPerfect critique \<longrightarrow>
                  (\<exists>content res1.
                     callsWith SYNTHESIZER_SYSTEM_INSTRUCTION new
                       = [(req0, Inr first),
                          (synthesizerRequest s h (secondSynthesizerContent content critique), res1)]
                     \<and> (case res1 of Inl e \<Rightarrow> r = Inl e \<and> ms = []
                                      | Inr g \<Rightarrow> finalAnswer g r ms)))"
    unfolding corrects_def by blast+
  from ex obtain req0 first where
    perfect: "isPerfect critique \<Longrightarrow>
                callsWith SYNTHESIZER_SYSTEM_INSTRUCTION new = [(req0, Inr first)]
                \<and> finalAnswer first r ms"
    and revise: "\<not> isPerfect critique \<Longrightarrow>
                  \<exists>content res1.
                     callsWith SYNTHESIZER_SYSTEM_INSTRUCTION new
                       = [(req0, Inr first),
                          (synthesizerRequest s h (secondSynthesizerContent content critique), res1)]
                     \<and> (case res1 of Inl e \<Rightarrow> r = Inl e \<and> ms = []
                                      | Inr g \<Rightarrow> finalAnswer g r ms)"
    by blast
  have shown: "\<exists>m. role m = Model \<and> isError m = None \<and> parts m = [Text (responseText x)]
                   \<and> conversations ?s'
                       = map (\<lambda>c. if convId c = cid
                                  then c\<lparr>messages := messages c @ [m]\<rparr> else c)
                           (conversations s)"
    if fa: "finalAnswer x r ms" for x
  proof -
    from fa obtain m where m: "ms = [m]" "role m = Model" "isError m = None"
      "parts m = [Text (responseText x)]"
      unfolding finalAnswer_def by blast
    from conv [OF fa m(1)] m show ?thesis by blast
  qed
  have p1: "isPerfect critique \<longrightarrow>
             callsWith SYNTHESIZER_SYSTEM_INSTRUCTION (newCalls s ?s') = [(req0, Inr first)]
             \<and> (\<exists>m. role m = Model \<and> isError m = None
                   \<and> parts m = [Text (responseText first)]
                   \<and> conversations ?s'
                       = map (\<lambda>c. if convId c = cid
                                  then c\<lparr>messages := messages c @ [m]\<rparr> else c)
                           (conversations s))"
    using perfect shown by (simp add: sy)
  have p2: "\<not> isPerfect critique \<longrightarrow>
               (\<exists>content res1.
                  callsWith SYNTHESIZER_SYSTEM_INSTRUCTION (newCalls s ?s')
                    = [(req0, Inr first),
                       (synthesizerRequest s h (secondSynthesizerContent content critique), res1)]
                  \<and> (\<forall>improved. res1 = Inr improved \<longrightarrow>
                        (\<exists>m. role m = Model \<and> isError m = None
                           \<and> parts m = [Text (responseText improved)]
                           \<and> conversations ?s'
                               = map (\<lambda>c. if convId c = cid
                                          then c\<lparr>messages := messages c @ [m]\<rparr> else c)
                                   (conversations s))))"
  proof
    assume "\<not> isPerfect critique"
    from revise [OF this] obtain content res1 where
      a: "callsWith SYNTHESIZER_SYSTEM_INSTRUCTION new
            = [(req0, Inr first),
               (synthesizerRequest s h (secondSynthesizerContent content critique), res1)]"
      and b: "case res1 of Inl e \<Rightarrow> r = Inl e \<and> ms = [] | Inr g \<Rightarrow> finalAnswer g r ms"
      by blast
    from b have "\<forall>improved. res1 = Inr improved \<longrightarrow> finalAnswer improved r ms" by auto
    with shown have "\<forall>improved. res1 = Inr improved \<longrightarrow>
        (\<exists>m. role m = Model \<and> isError m = None \<and> parts m = [Text (responseText improved)]
           \<and> conversations ?s'
               = map (\<lambda>c. if convId c = cid then c\<lparr>messages := messages c @ [m]\<rparr> else c)
                   (conversations s))"
      by blast
    with a show "\<exists>content res1.
        callsWith SYNTHESIZER_SYSTEM_INSTRUCTION (newCalls s ?s')
          = [(req0, Inr first),
             (synthesizerRequest s h (secondSynthesizerContent content critique), res1)]
        \<and> (\<forall>improved. res1 = Inr improved \<longrightarrow>
              (\<exists>m. role m = Model \<and> isError m = None \<and> parts m = [Text (responseText improved)]
                 \<and> conversations ?s'
                     = map (\<lambda>c. if convId c = cid then c\<lparr>messages := messages c @ [m]\<rparr> else c)
                         (conversations s)))"
      unfolding sy by blast
  qed
  from one p1 p2 show ?thesis
    unfolding cr by blast
qed

theorem C1_self_correction_witness:
  "callsWith CRITIC_SYSTEM_INSTRUCTION
      (newCalls balancedState
         (executeGeneration (criticWorld '' perfect '') ''q'' [] [] None balancedState))
     = [(critiqueRequest (promptWithContext ''q'' [] []) (plainResponse ''first answer''),
         Inr (plainResponse '' perfect ''))]
   \<and> isPerfect (plainResponse '' perfect '')
   \<and> map parts (messages (hd (conversations
         (executeGeneration (criticWorld '' perfect '') ''q'' [] [] None balancedState))))
       = [[Text ''first answer'']]
   \<and> length (callsWith SYNTHESIZER_SYSTEM_INSTRUCTION
        (newCalls balancedState
           (executeGeneration (criticWorld '' perfect '') ''q'' [] [] None balancedState))) = 1
   \<and> callsWith CRITIC_SYSTEM_INSTRUCTION
      (newCalls balancedState
         (executeGeneration (criticWorld ''Too short.'') ''q'' [] [] None balancedState))
     = [(critiqueRequest (promptWithContext ''q'' [] []) (plainResponse ''first answer''),
         Inr (plainResponse ''Too short.''))]
   \<and> map parts (messages (hd (conversations
         (executeGeneration (criticWorld ''Too short.'') ''q'' [] [] None balancedState))))
       = [[Text ''improved answer'']]
   \<and> length (callsWith SYNTHESIZER_SYSTEM_INSTRUCTION
        (newCalls balancedState
           (executeGeneration (criticWorld ''Too short.'') ''q'' [] [] None balancedState))) = 2"
proof -
  let ?creq = "critiqueRequest (promptWithContext ''q'' [] []) (plainResponse ''first answer'')"
  let ?p = "executeGeneration (criticWorld '' perfect '') ''q'' [] [] None balancedState"
  let ?n = "executeGeneration (criticWorld ''Too short.'') ''q'' [] [] None balancedState"
  have a: "ai balancedState" and c: "currentConversationId balancedState = Some ''1''"
    by (simp_all add: balancedState_def startState_def)
  have hp: "(?creq, Inr (plainResponse '' perfect ''))
              \<in> set (callsWith CRITIC_SYSTEM_INSTRUCTION (newCalls balancedState ?p))"
    by (simp add: eval_defs criticWorld_def balancedState_def plainResponse_def)
  have hn: "(?creq, Inr (plainResponse ''Too short.''))
              \<in> set (callsWith CRITIC_SYSTEM_INSTRUCTION (newCalls balancedState ?n))"
    by (simp add: eval_defs criticWorld_def balancedState_def plainResponse_def)
  have perfect: "isPerfect (plainResponse '' perfect '')"
    by (simp add: eval_defs plainResponse_def)
  have mp: "map parts (messages (hd (conversations ?p))) = [[Text ''first answer'']]"
    by (simp add: eval_defs criticWorld_def balancedState_def plainResponse_def)
  have mn: "map parts (messages (hd (conversations ?n))) = [[Text ''improved answer'']]"
    by (simp add: eval_defs criticWorld_def balancedState_def plainResponse_def)
  have lp: "length (callsWith SYNTHESIZER_SYSTEM_INSTRUCTION (newCalls balancedState ?p)) = 1"
    by (simp add: eval_defs criticWorld_def balancedState_def plainResponse_def)
  have ln: "length (callsWith SYNTHESIZER_SYSTEM_INSTRUCTION (newCalls balancedState ?n)) = 2"
    by (simp add: eval_defs criticWorld_def balancedState_def plainResponse_def)
  from C1_self_correction [OF a c hp]
  have op: "callsWith CRITIC_SYSTEM_INSTRUCTION (newCalls balancedState ?p)
              = [(?creq, Inr (plainResponse '' perfect ''))]" by blast
  from C1_self_correction [OF a c hn]
  have on: "callsWith CRITIC_SYSTEM_INSTRUCTION (newCalls balancedState ?n)
              = [(?creq, Inr (plainResponse ''Too short.''))]" by blast
  from op on perfect mp mn lp ln show ?thesis by blast
qed

section \<open>Submission, search gate and cancellation\<close>

lemma ungated_tryBlock:
  "effect cid (tryBlock w env cid u fp h q) (ungated env (contextPrefix env @ u) fp h q)"
proof (rule effect_tryBlock)
  assume "generationDepth env = DepthFast"
  then show "effect cid (fastGeneration w env cid (contextPrefix env @ u) fp h)
          (ungated env (contextPrefix env @ u) fp h q)"
    by (intro effect_fastGeneration) (simp_all add: ungated_def)
next
  assume slow: "generationDepth env \<noteq> DepthFast"
  show "effect cid (balancedOrDeepGeneration w env cid (contextPrefix env @ u) fp h q)
          (ungated env (contextPrefix env @ u) fp h q)"
  proof (rule effect_balancedOrDeep)
    fix e
    show "ungated env (contextPrefix env @ u) fp h q (Inl e)
            [(searchRequest env (contextPrefix env @ u) q, Inl e)] []"
      using slow by (simp add: ungated_def)
  next
    fix sp ctx srcs ti
    assume sp: "searched env (contextPrefix env @ u) q sp ctx srcs"
    then have hd: "researchMode env \<noteq> ResearchOffline \<Longrightarrow>
        \<exists>res. sp = [(searchRequest env (contextPrefix env @ u) q, res)]"
      by (auto simp: searched_def)
    show "effect cid
        (draftStages w env cid h (promptWithContext (contextPrefix env @ u) ctx fp) srcs ti)
        (\<lambda>r new ms. ungated env (contextPrefix env @ u) fp h q r (sp @ new) ms)"
      by (rule effect_draftStages) (use sp hd slow in \<open>auto simp add: ungated_def\<close>)
  qed
qed

lemma acceptSubmission_fields [simp]:
  "ai (acceptSubmission cid u conv s) = ai s"
  "currentConversationId (acceptSubmission cid u conv s) = currentConversationId s"
  "calls (acceptSubmission cid u conv s) = calls s"
  "researchMode (acceptSubmission cid u conv s) = researchMode s"
  "generationDepth (acceptSubmission cid u conv s) = generationDepth s"
  "showSearchConfirmation (acceptSubmission cid u conv s) = showSearchConfirmation s"
  "searchConfirmationData (acceptSubmission cid u conv s) = searchConfirmationData s"
  "isLoading (acceptSubmission cid u conv s)"
  "contextPrefix (acceptSubmission cid u conv s) = contextPrefix s"
  "searchRequest (acceptSubmission cid u conv s) fic q = searchRequest s fic q"
  "fastRequest (acceptSubmission cid u conv s) fic fp h = fastRequest s fic fp h"
  by (simp_all add: acceptSubmission_def Let_def updateConversationMessages_def contextPrefix_def
        searchRequest_def fastRequest_def codeInterpreterTool_def)

lemma acceptSubmission_messages:
  "map messages (conversations (acceptSubmission cid u conv s))
     = map (\<lambda>c. if convId c = cid then messages c @ [userMessageOf u (attachedFiles s)]
                else messages c) (conversations s)"
  by (simp add: acceptSubmission_def Let_def updateConversationMessages_def comp_def
        cong: if_cong)

lemma handleSubmit_accepted:
  assumes "ai s" "\<not> isLoading s" "currentConversationId s = Some cid"
    and "find (\<lambda>c. convId c = cid) (conversations s) = Some conv"
    and "u = (case ov of None \<Rightarrow> input s | Some v \<Rightarrow> v)"
    and "trim u \<noteq> [] \<or> attachedFiles s \<noteq> []"
  shows "handleSubmit w ov s =
     (if researchMode s = ResearchWeb \<and> generationDepth s \<noteq> DepthFast
      then searchGate w cid u (map content (attachedFiles s)) (buildHistory (messages conv))
             (acceptSubmission cid u conv s)
      else executeGeneration w u (map content (attachedFiles s)) (buildHistory (messages conv))
             None (acceptSubmission cid u conv s))"
  using assms by (auto simp add: handleSubmit_def Let_def)

lemma searchGate_eq:
  "searchGate w cid u fp h s =
     (case proposal w u (length (calls s)) of
        Inr (query, qs) \<Rightarrow>
          s\<lparr>searchConfirmationData :=
               Some \<lparr>originalUserInput = u, searchQuery = query, questions = qs,
                     attachedFileParts = fp, history = h\<rparr>,
            showSearchConfirmation := True,
            calls := calls s @ [(searchRefinerRequest u,
                                 gateway w (length (calls s)) (searchRefinerRequest u))]\<rparr>
      | Inl e \<Rightarrow>
          (appendMessages cid [errorMessage SEARCH_REFINEMENT_FAILED] s)
          \<lparr>isLoading := False,
           calls := calls s @ [(searchRefinerRequest u,
                                gateway w (length (calls s)) (searchRefinerRequest u))]\<rparr>)"
  by (simp add: searchGate_def proposeQuery_def proposal_def bnd_def generateContent_def Let_def
        appendMessages_def updateConversationMessages_def
        split: sum.splits prod.splits)

lemma appendMessages_keeps [simp]:
  "showSearchConfirmation (appendMessages cid ms s) = showSearchConfirmation s"
  "searchConfirmationData (appendMessages cid ms s) = searchConfirmationData s"
  by (simp_all add: appendMessages_def updateConversationMessages_def)

lemma proposal_cases:
  obtains (Failed) e where "proposal w u k = Inl e"
  | (Proposed) query qs where "proposal w u k = Inr (query, qs)"
  by (cases "proposal w u k") auto

lemma handleSubmit_gate:
  assumes "ai s" and "\<not> isLoading s" and "currentConversationId s = Some cid"
    and "find (\<lambda>c. convId c = cid) (conversations s) = Some conv"
    and "u = (case ov of None \<Rightarrow> input s | Some v \<Rightarrow> v)"
    and "trim u \<noteq> [] \<or> attachedFiles s \<noteq> []"
  shows "(callsWith SEARCH_REFINER_SYSTEM_INSTRUCTION (newCalls s (handleSubmit w ov s)) \<noteq> [])
           = (researchMode s = ResearchWeb \<and> generationDepth s \<noteq> DepthFast)
     \<and> (researchMode s = ResearchWeb \<and> generationDepth s \<noteq> DepthFast \<longrightarrow>
          newCalls s (handleSubmit w ov s)
            = [(searchRefinerRequest u, gateway w (length (calls s)) (searchRefinerRequest u))]
          \<and> (\<forall>query qs. proposal w u (length (calls s)) = Inr (query, qs) \<longrightarrow>
                showSearchConfirmation (handleSubmit w ov s)
                \<and> isLoading (handleSubmit w ov s)
                \<and> searchConfirmationData (handleSubmit w ov s)
                    = Some \<lparr>originalUserInput = u, searchQuery = query, questions = qs,
                            attachedFileParts = map content (attachedFiles s),
                            history = buildHistory (messages conv)\<rparr>)
          \<and> (\<forall>e. proposal w u (length (calls s)) = Inl e \<longrightarrow>
                showSearchConfirmation (handleSubmit w ov s) = showSearchConfirmation s
                \<and> \<not> isLoading (handleSubmit w ov s)))
     \<and> (\<not> (researchMode s = ResearchWeb \<and> generationDepth s \<noteq> DepthFast) \<longrightarrow>
          handleSubmit w ov s
            = executeGeneration w u (map content (attachedFiles s))
                (buildHistory (messages conv)) None (acceptSubmission cid u conv s)
          \<and> showSearchConfirmation (handleSubmit w ov s) = showSearchConfirmation s
          \<and> searchConfirmationData (handleSubmit w ov s) = searchConfirmationData s)
     \<and> (researchMode s = ResearchDeep \<and> generationDepth s \<noteq> DepthFast \<longrightarrow>
          (\<exists>res rest. newCalls s (handleSubmit w ov s)
                         = (searchRequest s (contextPrefix s @ u) None, res) # rest)
          \<and> tools (searchRequest s (contextPrefix s @ u) None) = Some [GoogleSearch])
     \<and> (researchMode s = ResearchDeep \<and> generationDepth s = DepthFast \<longrightarrow>
          (\<exists>res. newCalls s (handleSubmit w ov s)
                   = (fastRequest s (contextPrefix s @ u) (map content (attachedFiles s))
                        (buildHistory (messages conv)), res)
                     # filter isEnrichment (newCalls s (handleSubmit w ov s)))
          \<and> tools (fastRequest s (contextPrefix s @ u) (map content (attachedFiles s))
                     (buildHistory (messages conv)))
              = Some (codeInterpreterTool s @ [GoogleSearch]))"
proof (cases "researchMode s = ResearchWeb \<and> generationDepth s \<noteq> DepthFast")
  case True
  let ?s1 = "acceptSubmission cid u conv s"
  have hs: "handleSubmit w ov s =
      searchGate w cid u (map content (attachedFiles s)) (buildHistory (messages conv)) ?s1"
    using handleSubmit_accepted [OF assms] True by simp
  show ?thesis
  proof (cases rule: proposal_cases [of w u "length (calls s)"])
    case (Failed e)
    with True show ?thesis
      by (simp add: hs searchGate_eq newCalls_def fastRequest_def Let_def)
  next
    case (Proposed query qs)
    with True show ?thesis
      by (simp add: hs searchGate_eq newCalls_def fastRequest_def Let_def)
  qed
next
  case False
  let ?s1 = "acceptSubmission cid u conv s"
  let ?h = "buildHistory (messages conv)"
  let ?fp = "map content (attachedFiles s)"
  let ?s' = "executeGeneration w u ?fp ?h None ?s1"
  have hs: "handleSubmit w ov s = ?s'"
    using handleSubmit_accepted [OF assms] False by simp
  have a: "ai ?s1" "currentConversationId ?s1 = Some cid"
    using assms by simp_all
  from executeGeneration_shape [OF a ungated_tryBlock]
  obtain r new ms tasks enrich mem sug where
    un: "ungated ?s1 (contextPrefix ?s1 @ u) ?fp ?h None r new ms"
    and s': "?s' = (appendMessages cid
             (ms @ (case r of Inl e \<Rightarrow> [errorMessage (friendlyMessage e)] | Inr t \<Rightarrow> [])) ?s1)
          \<lparr>isLoading := False, loadingTasks := tasks, longTermMemories := mem,
           proactiveSuggestions := sug, calls := calls ?s1 @ new @ enrich\<rparr>"
    and en: "list_all isEnrichment enrich"
    by blast
  have nc: "newCalls s ?s' = new @ enrich"
    unfolding s' by (simp add: newCalls_def)
  have none: "callsWith SEARCH_REFINER_SYSTEM_INSTRUCTION (newCalls s ?s') = []"
    unfolding nc using un by (simp add: enrichment_callsWith [OF en] ungated_def)
  have keep: "showSearchConfirmation ?s' = showSearchConfirmation s"
    "searchConfirmationData ?s' = searchConfirmationData s"
    unfolding s' by simp_all
  have deep: "\<exists>res rest. newCalls s ?s' = (searchRequest s (contextPrefix s @ u) None, res) # rest"
    if "researchMode s = ResearchDeep" "generationDepth s \<noteq> DepthFast"
  proof -
    from un that obtain res rest where
      "new = (searchRequest s (contextPrefix s @ u) None, res) # rest"
      by (auto simp: ungated_def)
    then show ?thesis unfolding nc by simp
  qed
  have tool: "tools (searchRequest s (contextPrefix s @ u) None) = Some [GoogleSearch]"
    by (simp add: searchRequest_def)
  have fast: "\<exists>res. newCalls s ?s' = (fastRequest s (contextPrefix s @ u) ?fp ?h, res)
                  # filter isEnrichment (newCalls s ?s')"
    if "generationDepth s = DepthFast"
  proof -
    from un that obtain res where "new = [(fastRequest s (contextPrefix s @ u) ?fp ?h, res)]"
      by (auto simp: ungated_def)
    moreover have "filter isEnrichment enrich = enrich"
      using en by (simp add: list_all_iff)
    ultimately show ?thesis unfolding nc by (simp add: isEnrichment_def)
  qed
  have ftool: "researchMode s = ResearchDeep \<Longrightarrow>
      tools (fastRequest s (contextPrefix s @ u) ?fp ?h) = Some (codeInterpreterTool s @ [GoogleSearch])"
    by (simp add: fastRequest_def Let_def)
  from False none keep deep tool fast ftool show ?thesis
    unfolding hs by auto
qed

text \<open>
  Claim C3. Take a submission that passes the guards of \<open>handleSubmit\<close> (client present,
  nothing loading, a current conversation, some input or attachment). The search refiner
  is called if and only if the research mode is \<open>web\<close> and the depth is not \<open>fast\<close>. In that
  case the refiner call is the only call: the confirmation becomes pending, with the
  proposed query and the history, if the call resolved and its text was parsed, and
  otherwise the loading flag goes off without a confirmation. In every other case the
  submission goes straight to \<open>executeGeneration\<close> and the confirmation state is left as it
  was; in mode \<open>deep\<close> the first call is then the web search with the unconfirmed input for
  a depth that is not fast, and for the fast depth the one call that carries the search
  tool.
\<close>

theorem C3_search_gate:
  assumes "ai s" and "\<not> isLoading s" and "currentConversationId s = Some cid"
    and "find (\<lambda>c. convId c = cid) (conversations s) = Some conv"
    and "u = (case ov of None \<Rightarrow> input s | Some v \<Rightarrow> v)"
    and "trim u \<noteq> [] \<or> attachedFiles s \<noteq> []"
  shows "(callsWith SEARCH_REFINER_SYSTEM_INSTRUCTION (newCalls s (handleSubmit w ov s)) \<noteq> [])
           = (researchMode s = ResearchWeb \<and> generationDepth s \<noteq> DepthFast)
     \<and> (researchMode s = ResearchWeb \<and> generationDepth s \<noteq> DepthFast \<longrightarrow>
          newCalls s (handleSubmit w ov s)
            = [(searchRefinerRequest u, gateway w (length (calls s)) (searchRefinerRequest u))]
          \<and> (\<forall>query qs. proposal w u (length (calls s)) = Inr (query, qs) \<longrightarrow>
                showSearchConfirmation (handleSubmit w ov s)
                \<and> isLoading (handleSubmit w ov s)
                \<and> searchConfirmationData (handleSubmit w ov s)
                    = Some \<lparr>originalUserInput = u, searchQuery = query, questions = qs,
                            attachedFileParts = map content (attachedFiles s),
                            history = buildHistory (messages conv)\<rparr>)
          \<and> (\<forall>e. proposal w u (length (calls s)) = Inl e \<longrightarrow>
                showSearchConfirmation (handleSubmit w ov s) = showSearchConfirmation s
                \<and> \<not> isLoading (handleSubmit w ov s)))
     \<and> (\<not> (researchMode s = ResearchWeb \<and> generationDepth s \<noteq> DepthFast) \<longrightarrow>
          handleSubmit w ov s
            = executeGeneration w u (map content (attachedFiles s))
                (buildHistory (messages conv)) None (acceptSubmission cid u conv s)
          \<and> showSearchConfirmation (handleSubmit w ov s) = showSearchConfirmation s
          \<and> searchConfirmationData (handleSubmit w ov s) = searchConfirmationData s)
     \<and> (researchMode s = ResearchDeep \<and> generationDepth s \<noteq> DepthFast \<longrightarrow>
          (\<exists>res rest. newCalls s (handleSubmit w ov s)
                         = (searchRequest s (contextPrefix s @ u) None, res) # rest)
          \<and> tools (searchRequest s (contextPrefix s @ u) None) = Some [GoogleSearch])
     \<and> (researchMode s = ResearchDeep \<and> generationDepth s = DepthFast \<longrightarrow>
          (\<exists>res. newCalls s (handleSubmit w ov s)
                   = (fastRequest s (contextPrefix s @ u) (map content (attachedFiles s))
                        (buildHistory (messages conv)), res)
                     # filter isEnrichment (newCalls s (handleSubmit w ov s)))
          \<and> tools (fastRequest s (contextPrefix s @ u) (map content (attachedFiles s))
                     (buildHistory (messages conv)))
              = Some (codeInterpreterTool s @ [GoogleSearch]))"
  using assms by (rule handleSubmit_gate)

theorem C3_search_gate_witness:
  "showSearchConfirmation (handleSubmit echoWorld (Some ''Plan a trip to Kyoto'') webState)
   \<and> newCalls webState (handleSubmit echoWorld (Some ''Plan a trip to Kyoto'') webState)
       = [(searchRefinerRequest ''Plan a trip to Kyoto'',
           Inr (plainResponse ''kyoto travel guide''))]
   \<and> \<not> showSearchConfirmation (handleSubmit echoWorld (Some ''Plan a trip to Kyoto'') deepState)
   \<and> callsWith SEARCH_REFINER_SYSTEM_INSTRUCTION
        (newCalls deepState (handleSubmit echoWorld (Some ''Plan a trip to Kyoto'') deepState))
       = []
   \<and> (\<exists>res rest.
         newCalls deepState (handleSubmit echoWorld (Some ''Plan a trip to Kyoto'') deepState)
           = (searchRequest deepState ''Plan a trip to Kyoto'' None, res) # rest)"
proof -
  let ?u = "''Plan a trip to Kyoto''"
  let ?conv = "\<lparr>convId = ''1'', title = ''Nova Conversa'', messages = []\<rparr>"
  have validw: "ai webState" "\<not> isLoading webState" "currentConversationId webState = Some ''1''"
    "find (\<lambda>c. convId c = ''1'') (conversations webState) = Some ?conv"
    "?u = (case Some ?u of None \<Rightarrow> input webState | Some v \<Rightarrow> v)"
    "trim ?u \<noteq> [] \<or> attachedFiles webState \<noteq> []"
    by (simp_all add: webState_def startState_def trim_def isWhiteSpace_def)
  have validd: "ai deepState" "\<not> isLoading deepState" "currentConversationId deepState = Some ''1''"
    "find (\<lambda>c. convId c = ''1'') (conversations deepState) = Some ?conv"
    "?u = (case Some ?u of None \<Rightarrow> input deepState | Some v \<Rightarrow> v)"
    "trim ?u \<noteq> [] \<or> attachedFiles deepState \<noteq> []"
    by (simp_all add: deepState_def startState_def trim_def isWhiteSpace_def)
  have web: "researchMode webState = ResearchWeb \<and> generationDepth webState \<noteq> DepthFast"
    and deep: "researchMode deepState = ResearchDeep \<and> generationDepth deepState \<noteq> DepthFast"
    and hidden: "\<not> showSearchConfirmation deepState"
    and ctx: "contextPrefix deepState = []"
    by (simp_all add: webState_def deepState_def startState_def contextPrefix_def)
  have proposed: "proposal echoWorld ?u (length (calls webState))
                = Inr (''kyoto travel guide'', [''When?'', ''How long?'', ''Budget?''])"
    by (simp add: proposal_def echoWorld_def plainResponse_def)
  have gw: "gateway echoWorld (length (calls webState)) (searchRefinerRequest ?u)
              = Inr (plainResponse ''kyoto travel guide'')"
    by (simp add: echoWorld_def)
  from C3_search_gate [OF validw, of echoWorld] web proposed gw
  have w: "showSearchConfirmation (handleSubmit echoWorld (Some ?u) webState)"
    "newCalls webState (handleSubmit echoWorld (Some ?u) webState)
       = [(searchRefinerRequest ?u, Inr (plainResponse ''kyoto travel guide''))]"
    by auto
  from C3_search_gate [OF validd, of echoWorld] deep hidden ctx
  have d: "\<not> showSearchConfirmation (handleSubmit echoWorld (Some ?u) deepState)"
    "callsWith SEARCH_REFINER_SYSTEM_INSTRUCTION
        (newCalls deepState (handleSubmit echoWorld (Some ?u) deepState)) = []"
    "\<exists>res rest. newCalls deepState (handleSubmit echoWorld (Some ?u) deepState)
           = (searchRequest deepState ?u None, res) # rest"
    by auto
  from w d show ?thesis by blast
qed

text \<open>
  Claim C9. \<open>handleSearchCancel\<close> leaves every conversation, the log of calls, the memories
  and the suggestions as they are, puts the loading flag off and discards the pending
  confirmation. When the confirmation was brought up by a submission, the state after the
  cancellation holds, for the whole of submission and cancellation, the refiner call as
  the only call, and as the only new message the user's own.
\<close>

theorem C9_cancel_is_silent:
  "conversations (handleSearchCancel s) = conversations s
   \<and> calls (handleSearchCancel s) = calls s
   \<and> longTermMemories (handleSearchCancel s) = longTermMemories s
   \<and> proactiveSuggestions (handleSearchCancel s) = proactiveSuggestions s
   \<and> \<not> isLoading (handleSearchCancel s)
   \<and> \<not> showSearchConfirmation (handleSearchCancel s)
   \<and> searchConfirmationData (handleSearchCancel s) = None
   \<and> (ai s \<and> \<not> isLoading s \<and> currentConversationId s = Some cid
        \<and> find (\<lambda>c. convId c = cid) (conversations s) = Some conv
        \<and> u = (case ov of None \<Rightarrow> input s | Some v \<Rightarrow> v)
        \<and> (trim u \<noteq> [] \<or> attachedFiles s \<noteq> [])
        \<and> \<not> showSearchConfirmation s
        \<and> showSearchConfirmation (handleSubmit w ov s)
      \<longrightarrow>
        newCalls s (handleSearchCancel (handleSubmit w ov s))
          = [(searchRefinerRequest u, gateway w (length (calls s)) (searchRefinerRequest u))]
        \<and> map messages (conversations (handleSearchCancel (handleSubmit w ov s)))
            = map (\<lambda>c. if convId c = cid
                       then messages c @ [userMessageOf u (attachedFiles s)]
                       else messages c) (conversations s)
        \<and> \<not> isLoading (handleSearchCancel (handleSubmit w ov s)))"
proof -
  have frame: "conversations (handleSearchCancel s) = conversations s
   \<and> calls (handleSearchCancel s) = calls s
   \<and> longTermMemories (handleSearchCancel s) = longTermMemories s
   \<and> proactiveSuggestions (handleSearchCancel s) = proactiveSuggestions s
   \<and> \<not> isLoading (handleSearchCancel s)
   \<and> \<not> showSearchConfirmation (handleSearchCancel s)
   \<and> searchConfirmationData (handleSearchCancel s) = None" for s
    by (simp add: handleSearchCancel_def)
  have gate: "newCalls s (handleSearchCancel (handleSubmit w ov s))
          = [(searchRefinerRequest u, gateway w (length (calls s)) (searchRefinerRequest u))]
        \<and> map messages (conversations (handleSearchCancel (handleSubmit w ov s)))
            = map (\<lambda>c. if convId c = cid
                       then messages c @ [userMessageOf u (attachedFiles s)]
                       else messages c) (conversations s)
        \<and> \<not> isLoading (handleSearchCancel (handleSubmit w ov s))"
    if valid: "ai s" "\<not> isLoading s" "currentConversationId s = Some cid"
        "find (\<lambda>c. convId c = cid) (conversations s) = Some conv"
        "u = (case ov of None \<Rightarrow> input s | Some v \<Rightarrow> v)"
        "trim u \<noteq> [] \<or> attachedFiles s \<noteq> []"
      and hidden: "\<not> showSearchConfirmation s"
      and shown: "showSearchConfirmation (handleSubmit w ov s)"
  proof -
    let ?s1 = "acceptSubmission cid u conv s"
    let ?fp = "map content (attachedFiles s)"
    let ?h = "buildHistory (messages conv)"
    have web: "researchMode s = ResearchWeb \<and> generationDepth s \<noteq> DepthFast"
      using handleSubmit_gate [OF valid, of w] hidden shown by auto
    then have hs: "handleSubmit w ov s = searchGate w cid u ?fp ?h ?s1"
      using handleSubmit_accepted [OF valid] by simp
    show ?thesis
    proof (cases rule: proposal_cases [of w u "length (calls s)"])
      case (Failed e)
      with shown hidden have False
        by (simp add: hs searchGate_eq)
      then show ?thesis ..
    next
      case (Proposed query qs)
      then show ?thesis
        by (simp add: hs searchGate_eq newCalls_def handleSearchCancel_def
              acceptSubmission_messages)
    qed
  qed
  from frame [of s] gate show ?thesis by blast
qed

theorem C9_cancel_is_silent_witness:
  "showSearchConfirmation (handleSubmit echoWorld (Some ''Plan a trip to Kyoto'') webState)
   \<and> newCalls webState
        (handleSearchCancel (handleSubmit echoWorld (Some ''Plan a trip to Kyoto'') webState))
       = [(searchRefinerRequest ''Plan a trip to Kyoto'',
           Inr (plainResponse ''kyoto travel guide''))]
   \<and> map messages (conversations
         (handleSearchCancel (handleSubmit echoWorld (Some ''Plan a trip to Kyoto'') webState)))
       = [[userMessageOf ''Plan a trip to Kyoto'' []]]
   \<and> \<not> isLoading
         (handleSearchCancel (handleSubmit echoWorld (Some ''Plan a trip to Kyoto'') webState))"
proof -
  let ?u = "''Plan a trip to Kyoto''"
  let ?conv = "\<lparr>convId = ''1'', title = ''Nova Conversa'', messages = []\<rparr>"
  have valid: "ai webState" "\<not> isLoading webState" "currentConversationId webState = Some ''1''"
    "find (\<lambda>c. convId c = ''1'') (conversations webState) = Some ?conv"
    "?u = (case Some ?u of None \<Rightarrow> input webState | Some v \<Rightarrow> v)"
    "trim ?u \<noteq> [] \<or> attachedFiles webState \<noteq> []"
    by (simp_all add: webState_def startState_def trim_def isWhiteSpace_def)
  have hidden: "\<not> showSearchConfirmation webState"
    by (simp add: webState_def startState_def)
  have web: "researchMode webState = ResearchWeb \<and> generationDepth webState \<noteq> DepthFast"
    by (simp add: webState_def startState_def)
  have proposed: "proposal echoWorld ?u (length (calls webState))
                = Inr (''kyoto travel guide'', [''When?'', ''How long?'', ''Budget?''])"
    by (simp add: proposal_def echoWorld_def plainResponse_def)
  from handleSubmit_gate [OF valid, of echoWorld] web proposed
  have shown: "showSearchConfirmation (handleSubmit echoWorld (Some ?u) webState)"
    by blast
  have gw: "gateway echoWorld (length (calls webState)) (searchRefinerRequest ?u)
              = Inr (plainResponse ''kyoto travel guide'')"
    by (simp add: echoWorld_def)
  have convs: "conversations webState = [?conv]" "attachedFiles webState = []"
    by (simp_all add: webState_def startState_def)
  from C9_cancel_is_silent [of webState "''1''" ?conv ?u "Some ?u" echoWorld]
    valid hidden shown
  show ?thesis
    by (simp add: gw convs)
qed

end
